theory Spec2Isabelle
  imports Main "HOL-Library.Sublist" "HOL-Library.Char_ord" "HOL-Library.List_Lexorder"
begin

section \<open>Python values used by stubby.py\<close>

text \<open>
  Exceptions are values. Only the exception classes that the calls made by stubby.py can
  raise are listed.
\<close>

datatype error =
    ImportError
  | AttributeError
  | ValueError
  | RecursionError
  | FileNotFoundError
  | FileExistsError
  | NotADirectoryError
  | IsADirectoryError

text \<open>
  A member value, as far as \<open>ModuleStubGenerator.generate\<close> looks at it: the four
  \<open>inspect\<close> predicates (kept independent, a value may satisfy several of them), the
  \<open>__name__\<close> attribute, the result of \<open>str(inspect.signature(member))\<close> (which raises
  for a callable without an inspectable signature), and the name and defining module of
  \<open>type(member)\<close>.
\<close>

record pyobj =
  is_class :: bool
  is_function :: bool
  is_module :: bool
  is_builtin :: bool
  obj_name :: string
  signature :: "error + string"
  type_name :: string
  type_module :: string

text \<open>
  A module object: \<open>__name__\<close>, \<open>__package__\<close> (which may be \<open>None\<close>), \<open>__path__\<close>
  (present on packages only) and the remaining namespace as name/value pairs. The first
  three are entries of the module's namespace too; they are fields of their own because the
  code reads them as attributes, and the member loop skips them as it skips every name that
  starts with two underscores.
\<close>

record module_obj =
  mod_name :: string
  mod_package :: "string option"
  mod_path :: "string list option"
  namespace :: "(string \<times> pyobj) list"

text \<open>Objects are referenced; the heap gives the current state of every module object.\<close>

type_synonym ref = nat
type_synonym heap = "ref \<Rightarrow> module_obj"

section \<open>String operations of the Python runtime\<close>

definition startswith :: "string \<Rightarrow> string \<Rightarrow> bool" where
  "startswith s p = (take (length p) s = p)"

definition removeprefix :: "string \<Rightarrow> string \<Rightarrow> string" where
  "removeprefix s p = (if startswith s p then drop (length p) s else s)"

text \<open>\<open>s.split(sep)\<close> for a one-character separator: one more piece than separators.\<close>

fun split_on :: "char \<Rightarrow> string \<Rightarrow> string list" where
  "split_on sep [] = [[]]"
| "split_on sep (c # cs) =
     (if c = sep then [] # split_on sep cs
      else (c # hd (split_on sep cs)) # tl (split_on sep cs))"

text \<open>\<open>str(x)\<close> of an attribute that may be \<open>None\<close>, and of a boolean.\<close>

definition str_opt :: "string option \<Rightarrow> string" where
  "str_opt v = (case v of None \<Rightarrow> ''None'' | Some s \<Rightarrow> s)"

definition str_bool :: "bool \<Rightarrow> string" where
  "str_bool b = (if b then ''True'' else ''False'')"

text \<open>\<open>inspect.getmembers(obj)\<close>: the name/value pairs sorted by name.\<close>

definition getmembers :: "module_obj \<Rightarrow> (string \<times> pyobj) list" where
  "getmembers m = sort_key fst (namespace m)"

section \<open>The member loop of ModuleStubGenerator.generate\<close>

text \<open>
  Line 63 reads \<open>obj_type.__class__.__module__\<close> after \<open>obj_type\<close> has been bound to the
  string \<open>type(member).__name__\<close>: the class is \<open>str\<close>, whose \<open>__module__\<close> is
  \<open>builtins\<close>.
\<close>

definition str_class_module :: string where
  "str_class_module = ''builtins''"

text \<open>
  The text of one \<open>f.write\<close> of the if/elif chain (lines 52 to 68), before the blank
  line. Evaluating the argument of the second branch may raise.
\<close>

definition member_text :: "string \<Rightarrow> pyobj \<Rightarrow> error + string" where
  "member_text name member =
     (if is_class member then
        Inr (''class '' @ name @ '':\<newline>    ...'')
      else if is_function member then
        (case signature member of
           Inl e \<Rightarrow> Inl e
         | Inr sig \<Rightarrow> Inr (''def '' @ name @ sig @ '': ...''))
      else if is_module member then
        Inr (''import '' @ obj_name member @ ''  # type: ignore'')
      else if is_builtin member then
        Inr (''# Built-in: '' @ name)
      else
        (let obj_type = type_name member;
             obj_module = str_class_module;
             obj_type = (if obj_type = ''NoneType'' then ''None'' else obj_type);
             is_builtin = (obj_module = ''builtins'')
         in Inr (name @ '': '' @ obj_type @ '' # builtin: '' @ obj_module @ '' ''
                  @ str_bool is_builtin)))"

text \<open>
  The for loop (lines 48 to 70) over the captured members, appending to what has been
  written to the file so far. An exception leaves the loop with the text written before it.
\<close>

fun write_members :: "(string \<times> pyobj) list \<Rightarrow> string \<Rightarrow> error option \<times> string" where
  "write_members [] buf = (None, buf)"
| "write_members ((name, member) # rest) buf =
     (if startswith name ''__'' then write_members rest buf
      else (case member_text name member of
              Inl e \<Rightarrow> (Some e, buf)
            | Inr t \<Rightarrow> write_members rest (buf @ t @ ''\<newline>\<newline>'')))"

definition header :: "string \<Rightarrow> string" where
  "header name = ''# Auto generatded stub from stubby.py '' @ name @ ''\<newline>\<newline>''"

section \<open>Paths and the file system\<close>

text \<open>
  \<open>os.path.join\<close> (posixpath): a component starting with the separator restarts the
  path; otherwise components are appended with exactly one separator between them.
\<close>

definition join_step :: "string \<Rightarrow> string \<Rightarrow> string" where
  "join_step path b =
     (if startswith b ''/'' then b
      else if path = [] \<or> last path = CHR ''/'' then path @ b
      else path @ ''/'' @ b)"

definition path_join :: "string \<Rightarrow> string list \<Rightarrow> string" where
  "path_join a ps = foldl join_step a ps"

text \<open>
  \<open>os.path.dirname\<close> (posixpath): everything up to the last separator, with trailing
  separators removed unless the head consists of separators only.
\<close>

definition dirname :: "string \<Rightarrow> string" where
  "dirname p =
     (let head = rev (dropWhile (\<lambda>c. c \<noteq> CHR ''/'') (rev p))
      in if head \<noteq> [] \<and> head \<noteq> replicate (length head) CHR ''/''
         then rev (dropWhile (\<lambda>c. c = CHR ''/'') (rev head))
         else head)"

text \<open>
  The file system maps the components of a path to a node. A path is resolved to its
  non-empty components, an absolute path starting with the component \<open>/\<close>. The root and
  the working directory always exist. Symbolic links and the special names \<open>.\<close> and
  \<open>..\<close> are not interpreted.
\<close>

datatype node = File string | Dir

type_synonym fs = "string list \<Rightarrow> node option"

definition components :: "string \<Rightarrow> string list" where
  "components p = filter (\<lambda>c. c \<noteq> []) (split_on CHR ''/'' p)"

definition key :: "string \<Rightarrow> string list" where
  "key p = (if startswith p ''/'' then [''/''] else []) @ components p"

definition lookup :: "fs \<Rightarrow> string list \<Rightarrow> node option" where
  "lookup f k = (if k = [] \<or> k = [''/''] then Some Dir else f k)"

text \<open>\<open>os.path.exists\<close>\<close>

definition path_exists :: "fs \<Rightarrow> string \<Rightarrow> bool" where
  "path_exists f p = (p \<noteq> [] \<and> lookup f (key p) \<noteq> None)"

text \<open>
  \<open>os.makedirs\<close>: creates every missing directory on the way to the leaf, stops at a
  component that is a regular file, and refuses a leaf that exists already.
\<close>

fun mkdir_all :: "fs \<Rightarrow> string list \<Rightarrow> string list \<Rightarrow> error option \<times> fs" where
  "mkdir_all f pre [] = (None, f)"
| "mkdir_all f pre (c # cs) =
     (case lookup f (pre @ [c]) of
        None \<Rightarrow> mkdir_all (f(pre @ [c] \<mapsto> Dir)) (pre @ [c]) cs
      | Some Dir \<Rightarrow> mkdir_all f (pre @ [c]) cs
      | Some (File x) \<Rightarrow> (Some NotADirectoryError, f))"

definition makedirs :: "fs \<Rightarrow> string \<Rightarrow> error option \<times> fs" where
  "makedirs f p =
     (if p = [] then (Some FileNotFoundError, f)
      else if lookup f (key p) \<noteq> None then (Some FileExistsError, f)
      else mkdir_all f [] (key p))"

text \<open>
  \<open>open(p, 'w')\<close>: the parent must be a directory and the target must not be one; the
  file is created or truncated.
\<close>

definition open_w :: "fs \<Rightarrow> string \<Rightarrow> error option \<times> fs" where
  "open_w f p =
     (if p = [] then (Some FileNotFoundError, f)
      else if lookup f (key p) = Some Dir then (Some IsADirectoryError, f)
      else (case lookup f (butlast (key p)) of
              None \<Rightarrow> (Some FileNotFoundError, f)
            | Some (File x) \<Rightarrow> (Some NotADirectoryError, f)
            | Some Dir \<Rightarrow> (None, f(key p \<mapsto> File []))))"

text \<open>\<open>shutil.rmtree\<close>: removes a directory and everything below it.\<close>

definition rmtree :: "fs \<Rightarrow> string \<Rightarrow> error option \<times> fs" where
  "rmtree f p =
     (if p = [] then (Some FileNotFoundError, f)
      else (case lookup f (key p) of
              None \<Rightarrow> (Some FileNotFoundError, f)
            | Some (File x) \<Rightarrow> (Some NotADirectoryError, f)
            | Some Dir \<Rightarrow> (None, \<lambda>k. if prefix (key p) k then None else f k)))"

section \<open>ModuleStubGenerator\<close>

record ModuleStubGenerator =
  obj :: ref
  members :: "(string \<times> pyobj) list"

text \<open>\<open>__init__\<close> (lines 32 to 34) keeps the reference and captures the members.\<close>

definition MSG_init :: "heap \<Rightarrow> ref \<Rightarrow> ModuleStubGenerator" where
  "MSG_init h r = \<lparr>obj = r, members = getmembers (h r)\<rparr>"

text \<open>The path computed by lines 37 to 39, from the object's state at the call.\<close>

definition package_of :: "module_obj \<Rightarrow> string" where
  "package_of m = str_opt (mod_package m)"

definition module_name_of :: "module_obj \<Rightarrow> string" where
  "module_name_of m = removeprefix (mod_name m) (package_of m @ ''.'')"

definition output_file_of :: "module_obj \<Rightarrow> string \<Rightarrow> string" where
  "output_file_of m output_folder =
     path_join output_folder
       (split_on CHR ''.'' (package_of m) @ [module_name_of m @ ''.pyi''])"

text \<open>
  \<open>generate\<close> (lines 36 to 70). The file is opened (and truncated) before the loop runs,
  and closing it stores what the loop has written, also when the loop raises.
\<close>

definition MSG_generate ::
  "heap \<Rightarrow> ModuleStubGenerator \<Rightarrow> string \<Rightarrow> fs \<Rightarrow> error option \<times> fs" where
  "MSG_generate h self output_folder f =
     (let output_file = output_file_of (h (obj self)) output_folder;
          root_folder = dirname output_file
      in case (if \<not> path_exists f root_folder then makedirs f root_folder else (None, f)) of
           (Some e, f1) \<Rightarrow> (Some e, f1)
         | (None, f1) \<Rightarrow>
             (case open_w f1 output_file of
                (Some e, f2) \<Rightarrow> (Some e, f2)
              | (None, f2) \<Rightarrow>
                  (case write_members (members self) (header (mod_name (h (obj self)))) of
                     (r, text) \<Rightarrow> (r, f2(key output_file \<mapsto> File text)))))"

section \<open>StubGenerator\<close>

text \<open>
  The import system: what the finders of a search path list (short name and whether it is
  a package), and the module object an import of a dotted name gives, or its failure.
  Importing and listing do not depend on the files that the generator writes.
\<close>

record importer =
  finder_children :: "string list \<Rightarrow> (string \<times> bool) list"
  import_module :: "string \<Rightarrow> error + ref"

text \<open>\<open>pkgutil.iter_modules(path, prefix)\<close> puts the prefix in front of every name.\<close>

definition iter_modules :: "importer \<Rightarrow> string list \<Rightarrow> string \<Rightarrow> (string \<times> bool) list" where
  "iter_modules imp path pre = map (\<lambda>(n, ispkg). (pre @ n, ispkg)) (finder_children imp path)"

text \<open>
  \<open>_generate_stubs\<close> (lines 91 to 109) and its for loop. The first argument bounds the
  depth of the recursion, as the interpreter's recursion limit does: exceeding it raises
  \<open>RecursionError\<close>.
\<close>

fun generate_stubs ::
  "nat \<Rightarrow> importer \<Rightarrow> heap \<Rightarrow> ref \<Rightarrow> string \<Rightarrow> string option \<Rightarrow> fs \<Rightarrow> error option \<times> fs"
and stubs_loop ::
  "nat \<Rightarrow> importer \<Rightarrow> heap \<Rightarrow> string \<Rightarrow> (string \<times> bool) list \<Rightarrow> fs \<Rightarrow> error option \<times> fs"
where
  "generate_stubs 0 imp h module output_folder pkg f = (Some RecursionError, f)"
| "generate_stubs (Suc d) imp h module output_folder pkg f =
     (let pkg = (case pkg of None \<Rightarrow> mod_package (h module) | Some p \<Rightarrow> Some p)
      in case mod_path (h module) of
           None \<Rightarrow> (Some AttributeError, f)
         | Some path \<Rightarrow>
             stubs_loop d imp h output_folder (iter_modules imp path (str_opt pkg @ ''.'')) f)"
| "stubs_loop d imp h output_folder [] f = (None, f)"
| "stubs_loop d imp h output_folder ((name, ispkg) # rest) f =
     (case import_module imp name of
        Inl e \<Rightarrow> (Some e, f)
      | Inr loaded \<Rightarrow>
          (case (if ispkg
                 then generate_stubs d imp h loaded output_folder
                        (Some (str_opt (mod_package (h loaded)))) f
                 else MSG_generate h (MSG_init h loaded) output_folder f) of
             (Some e, f1) \<Rightarrow> (Some e, f1)
           | (None, f1) \<Rightarrow> stubs_loop d imp h output_folder rest f1))"

text \<open>\<open>StubGenerator.generate\<close> (lines 78 to 89).\<close>

definition SG_generate ::
  "nat \<Rightarrow> importer \<Rightarrow> heap \<Rightarrow> ref \<Rightarrow> string \<Rightarrow> bool \<Rightarrow> fs \<Rightarrow> error option \<times> fs" where
  "SG_generate d imp h module output_folder flush_old f =
     (case (if flush_old \<and> path_exists f output_folder then rmtree f output_folder
            else (None, f)) of
        (Some e, f1) \<Rightarrow> (Some e, f1)
      | (None, f1) \<Rightarrow> generate_stubs d imp h module output_folder None f1)"

section \<open>Notions used in the statements and proofs\<close>

text \<open>A member that the loop does not skip.\<close>

definition nondunder :: "string \<times> pyobj \<Rightarrow> bool" where
  "nondunder = (\<lambda>(name, member). \<not> startswith name ''__'')"

text \<open>A path component as dotted module names give them: not empty, no separator.\<close>

definition plain_segment :: "string \<Rightarrow> bool" where
  "plain_segment s = (s \<noteq> [] \<and> CHR ''/'' \<notin> set s)"


text \<open>
  \<open>mkdir_all f pre cs\<close> succeeds exactly when no component on the way is a regular file,
  and then it yields \<open>with_dirs f pre cs\<close>.
\<close>

definition ok_dirs :: "fs \<Rightarrow> string list \<Rightarrow> string list \<Rightarrow> bool" where
  "ok_dirs f pre cs = (\<forall>q c. q \<noteq> [] \<and> prefix q cs \<longrightarrow> lookup f (pre @ q) \<noteq> Some (File c))"

definition with_dirs :: "fs \<Rightarrow> string list \<Rightarrow> string list \<Rightarrow> fs" where
  "with_dirs f pre cs =
     (\<lambda>k. if (\<exists>q. q \<noteq> [] \<and> prefix q cs \<and> k = pre @ q) \<and> lookup f k = None
          then Some Dir else f k)"



section \<open>An example package\<close>

text \<open>
  The package \<open>p\<close> holds the module \<open>p.a\<close> and the subpackage \<open>p.s\<close> with the module
  \<open>p.s.b\<close>. The output folder is \<open>o\<close>.
\<close>

definition ex_value :: "string \<Rightarrow> string \<Rightarrow> pyobj" where
  "ex_value ty md = \<lparr>is_class = False, is_function = False, is_module = False,
     is_builtin = False, obj_name = [], signature = Inl ValueError,
     type_name = ty, type_module = md\<rparr>"

definition ex_class :: pyobj where
  "ex_class = \<lparr>is_class = True, is_function = False, is_module = False,
     is_builtin = False, obj_name = ''Foo'', signature = Inr ''()'',
     type_name = ''type'', type_module = ''builtins''\<rparr>"

definition ex_function :: pyobj where
  "ex_function = \<lparr>is_class = False, is_function = True, is_module = False,
     is_builtin = False, obj_name = ''add'', signature = Inr ''(a, b=1)'',
     type_name = ''function'', type_module = ''builtins''\<rparr>"




definition ex_nosig :: pyobj where
  "ex_nosig = \<lparr>is_class = False, is_function = True, is_module = False,
     is_builtin = False, obj_name = ''g'', signature = Inl ValueError,
     type_name = ''function'', type_module = ''builtins''\<rparr>"

definition ex_heap :: heap where
  "ex_heap r =
     (if r = 0 then \<lparr>mod_name = ''p'', mod_package = Some ''p'',
                     mod_path = Some [''/s/p''], namespace = []\<rparr>
      else if r = 1 then \<lparr>mod_name = ''p.a'', mod_package = Some ''p'',
                     mod_path = None,
                     namespace = [(''add'', ex_function), (''X'', ex_value ''NoneType'' ''builtins''),
                                  (''__version__'', ex_value ''str'' ''builtins''),
                                  (''Foo'', ex_class)]\<rparr>
      else if r = 2 then \<lparr>mod_name = ''p.s'', mod_package = Some ''p.s'',
                     mod_path = Some [''/s/p/s''], namespace = []\<rparr>
      else \<lparr>mod_name = ''p.s.b'', mod_package = Some ''p.s'',
                     mod_path = None,
                     namespace = [(''Y'', ex_value ''int'' ''builtins'')]\<rparr>)"



definition ex_importer :: importer where
  "ex_importer = \<lparr>
     finder_children = (\<lambda>path.
        if path = [''/s/p''] then [(''a'', False), (''s'', True)]
        else if path = [''/s/p/s''] then [(''b'', False)]
        else []),
     import_module = (\<lambda>name.
        if name = ''p.a'' then Inr 1
        else if name = ''p.s'' then Inr 2
        else if name = ''p.s.b'' then Inr 3
        else Inl ImportError)\<rparr>"

definition ex_importer_bad :: importer where
  "ex_importer_bad = ex_importer\<lparr>import_module := (\<lambda>name.
        if name = ''p.a'' then Inr 1
        else if name = ''p.s'' then Inr 2
        else Inl ImportError)\<rparr>"

definition ex_gen_nosig :: ModuleStubGenerator where
  "ex_gen_nosig = \<lparr>obj = 1, members = [(''g'', ex_nosig)]\<rparr>"

definition ex_gen_partial :: ModuleStubGenerator where
  "ex_gen_partial = \<lparr>obj = 1,
     members = [(''Y'', ex_value ''int'' ''builtins''), (''__w'', ex_nosig), (''g'', ex_nosig),
                (''z'', ex_value ''int'' ''builtins'')]\<rparr>"

definition ex_fs :: fs where
  "ex_fs = [[''o''] \<mapsto> Dir, [''o'', ''old''] \<mapsto> File ''x'']"

definition ex_fs2 :: fs where
  "ex_fs2 = [[''o''] \<mapsto> Dir, [''o'', ''junk''] \<mapsto> File ''y'']"

definition ex_fs_file :: fs where
  "ex_fs_file = [[''o''] \<mapsto> File ''z'']"

definition ex_fs_dir :: fs where
  "ex_fs_dir = [[''o''] \<mapsto> Dir, [''o'', ''p''] \<mapsto> Dir, [''o'', ''p'', ''a.pyi''] \<mapsto> Dir]"

section \<open>The member loop\<close>

lemma write_members_blocks:
  "write_members ms buf = (None, text) \<Longrightarrow>
   \<exists>texts. map (\<lambda>(name, member). member_text name member) (filter nondunder ms) = map Inr texts
         \<and> text = buf @ concat (map (\<lambda>t. t @ ''\<newline>\<newline>'') texts)"
proof (induction ms arbitrary: buf)
  case Nil
  then show ?case by simp
next
  case (Cons a ms)
  obtain name member where a: "a = (name, member)" by (cases a)
  show ?case
  proof (cases "startswith name ''__''")
    case True
    with Cons a show ?thesis by (simp add: nondunder_def)
  next
    case False
    with Cons.prems a obtain t where t: "member_text name member = Inr t"
      and w: "write_members ms (buf @ t @ ''\<newline>\<newline>'') = (None, text)"
      by (auto split: sum.splits)
    from Cons.IH[OF w] obtain texts where
      "map (\<lambda>(name, member). member_text name member) (filter nondunder ms) = map Inr texts"
      "text = (buf @ t @ ''\<newline>\<newline>'') @ concat (map (\<lambda>t. t @ ''\<newline>\<newline>'') texts)"
      by blast
    with False a t show ?thesis
      by (intro exI[of _ "t # texts"]) (simp add: nondunder_def)
  qed
qed

lemma write_members_filter:
  "write_members (filter nondunder ms) buf = write_members ms buf"
  by (induction ms arbitrary: buf) (auto simp: nondunder_def split: sum.splits)

lemma write_members_partial:
  "write_members ms buf = (r, tx) \<Longrightarrow>
   \<exists>texts. prefix (map Inr texts)
              (map (\<lambda>(name, member). member_text name member) (filter nondunder ms))
         \<and> tx = buf @ concat (map (\<lambda>t. t @ ''\<newline>\<newline>'') texts)"
proof (induction ms arbitrary: buf)
  case Nil
  then show ?case by simp
next
  case (Cons a ms)
  obtain name member where a: "a = (name, member)" by (cases a)
  show ?case
  proof (cases "startswith name ''__''")
    case True
    with Cons a show ?thesis by (simp add: nondunder_def)
  next
    case False
    show ?thesis
    proof (cases "member_text name member")
      case (Inl e)
      with Cons.prems a False have "tx = buf" by simp
      then show ?thesis by (intro exI[of _ "[]"]) simp
    next
      case (Inr t)
      with Cons.prems a False
      have w: "write_members ms (buf @ t @ ''\<newline>\<newline>'') = (r, tx)" by simp
      from Cons.IH[OF w] obtain texts where
        "prefix (map Inr texts)
              (map (\<lambda>(name, member). member_text name member) (filter nondunder ms))"
        "tx = (buf @ t @ ''\<newline>\<newline>'') @ concat (map (\<lambda>t. t @ ''\<newline>\<newline>'') texts)"
        by blast
      with False a Inr show ?thesis
        by (intro exI[of _ "t # texts"]) (simp add: nondunder_def)
    qed
  qed
qed

section \<open>Strings and paths\<close>

lemma split_on_ne: "split_on sep s \<noteq> []"
  by (induction s) auto

lemma split_on_nosep: "sep \<notin> set t \<Longrightarrow> split_on sep t = [t]"
  by (induction t) auto

lemma split_on_append:
  "split_on sep (a @ sep # b) = split_on sep a @ split_on sep b"
  by (induction a) (auto simp: split_on_ne)

lemma components_append:
  "components (a @ CHR ''/'' # b) = components a @ components b"
  by (simp add: components_def split_on_append)

lemma components_nosep:
  "CHR ''/'' \<notin> set t \<Longrightarrow> t \<noteq> [] \<Longrightarrow> components t = [t]"
  by (simp add: components_def split_on_nosep)

lemma components_Nil: "components [] = []"
  by (simp add: components_def)

lemma components_snoc_sep: "components (a @ ''/'') = components a"
  using components_append[of a "[]"] by (simp add: components_Nil)

lemma components_rstrip:
  "components (rev (dropWhile (\<lambda>c. c = CHR ''/'') (rev s))) = components s"
  by (induction s rule: rev_induct) (auto simp: components_snoc_sep)

lemma rstrip_prefix:
  "\<exists>n. s = rev (dropWhile (\<lambda>c. c = CHR ''/'') (rev s)) @ replicate n CHR ''/''"
proof (induction s rule: rev_induct)
  case Nil
  then show ?case by simp
next
  case (snoc c s)
  define r where "r = rev (dropWhile (\<lambda>c. c = CHR ''/'') (rev s))"
  from snoc obtain n where n: "s = r @ replicate n CHR ''/''"
    unfolding r_def by blast
  show ?case
  proof (cases "c = CHR ''/''")
    case True
    then have "rev (dropWhile (\<lambda>c. c = CHR ''/'') (rev (s @ [c]))) = r"
      by (simp add: r_def)
    moreover have "s @ [c] = r @ replicate (Suc n) CHR ''/''"
      using True by (subst n) (simp add: replicate_append_same)
    ultimately show ?thesis by metis
  next
    case False
    then show ?thesis by (intro exI[of _ 0]) simp
  qed
qed

lemma startswith_sep: "startswith p ''/'' = (p \<noteq> [] \<and> hd p = CHR ''/'')"
  by (cases p) (auto simp: startswith_def)

lemma key_dirname:
  assumes "p \<noteq> []" and "last p \<noteq> CHR ''/''"
  shows "key (dirname p) = butlast (key p)"
proof (cases "CHR ''/'' \<in> set p")
  case False
  then have "dropWhile (\<lambda>c. c \<noteq> CHR ''/'') (rev p) = []" by auto
  then have "dirname p = []" by (simp add: dirname_def)
  moreover have "key p = [p]"
    using False assms(1) by (cases p) (auto simp: key_def startswith_def components_nosep)
  ultimately show ?thesis by (simp add: key_def startswith_def components_Nil)
next
  case True
  then obtain a t where p: "p = a @ CHR ''/'' # t" and t: "CHR ''/'' \<notin> set t"
    using split_list_last[of "CHR ''/''" p] by blast
  from assms(2) p have tne: "t \<noteq> []" by auto
  define hd0 where "hd0 = a @ ''/''"
  have "dropWhile (\<lambda>c. c \<noteq> CHR ''/'') (rev p) = CHR ''/'' # rev a"
    using t by (simp add: p dropWhile_append3) auto
  then have head: "rev (dropWhile (\<lambda>c. c \<noteq> CHR ''/'') (rev p)) = hd0"
    by (simp add: hd0_def)
  have sw: "startswith p ''/'' = startswith hd0 ''/''"
    by (cases a) (auto simp: p hd0_def startswith_def)
  have kp: "butlast (key p) = (if startswith hd0 ''/'' then [''/''] else []) @ components a"
    unfolding key_def sw using t tne
    by (simp add: p components_append components_nosep butlast_append)
  show ?thesis
  proof (cases "hd0 = replicate (length hd0) CHR ''/''")
    case True
    then have "dirname p = hd0" by (simp add: dirname_def head Let_def)
    then have "key (dirname p) = (if startswith hd0 ''/'' then [''/''] else []) @ components hd0"
      by (simp add: key_def)
    also have "components hd0 = components a"
      by (simp add: hd0_def components_snoc_sep)
    finally show ?thesis by (simp only: kp)
  next
    case False
    define r where "r = rev (dropWhile (\<lambda>c. c = CHR ''/'') (rev hd0))"
    have d: "dirname p = r"
      using False by (simp add: dirname_def head Let_def r_def hd0_def)
    obtain n where n: "hd0 = r @ replicate n CHR ''/''"
      using rstrip_prefix[of hd0] unfolding r_def by blast
    have rne: "r \<noteq> []" using False n by auto
    then have "startswith r ''/'' = startswith hd0 ''/''"
      using n by (cases r) (auto simp: startswith_def)
    moreover have "components r = components a"
      unfolding r_def components_rstrip by (simp add: hd0_def components_snoc_sep)
    moreover have "key (dirname p) = (if startswith r ''/'' then [''/''] else []) @ components r"
      by (simp add: key_def d)
    ultimately show ?thesis by (simp only: kp)
  qed
qed

lemma join_step_suffix: "\<exists>a. join_step path b = a @ b"
  by (auto simp: join_step_def)

lemma output_file_suffix: "\<exists>a. output_file_of m out = a @ ''.pyi''"
proof -
  obtain a where "join_step (path_join out (split_on CHR ''.'' (package_of m)))
       (module_name_of m @ ''.pyi'') = a @ module_name_of m @ ''.pyi''"
    using join_step_suffix by blast
  then have "output_file_of m out = (a @ module_name_of m) @ ''.pyi''"
    by (simp add: output_file_of_def path_join_def)
  then show ?thesis by blast
qed

lemma output_file_ne: "output_file_of m out \<noteq> []"
  using output_file_suffix[of m out] by auto

lemma output_file_last: "last (output_file_of m out) \<noteq> CHR ''/''"
  using output_file_suffix[of m out] by auto

lemma key_last:
  assumes "p \<noteq> []" and "last p \<noteq> CHR ''/''"
  shows "key p \<noteq> [] \<and> last (key p) \<noteq> [] \<and> CHR ''/'' \<notin> set (last (key p))"
proof (cases "CHR ''/'' \<in> set p")
  case False
  have "key p = [p]"
    using False assms(1) by (cases p) (auto simp: key_def startswith_def components_nosep)
  with False assms(1) show ?thesis by simp
next
  case True
  then obtain a t where p: "p = a @ CHR ''/'' # t" and t: "CHR ''/'' \<notin> set t"
    using split_list_last[of "CHR ''/''" p] by blast
  from assms(2) p have tne: "t \<noteq> []" by auto
  have "key p = ((if startswith p ''/'' then [''/''] else []) @ components a) @ [t]"
    unfolding key_def using t tne by (simp add: p components_append components_nosep)
  with t tne show ?thesis by simp
qed

lemma key_not_root:
  assumes "p \<noteq> []" and "last p \<noteq> CHR ''/''"
  shows "key p \<noteq> []" and "key p \<noteq> [''/'']" and "butlast (key p) \<noteq> key p"
proof -
  from key_last[OF assms] have k: "key p \<noteq> []" "CHR ''/'' \<notin> set (last (key p))" by auto
  show "key p \<noteq> []" by fact
  show "key p \<noteq> [''/'']" using k by auto
  show "butlast (key p) \<noteq> key p" using k(1) by (metis append_butlast_last_id append_self_conv list.distinct(1))
qed

lemmas outkey_not_root = key_not_root[OF output_file_ne output_file_last]

lemmas outkey_dirname = key_dirname[OF output_file_ne output_file_last]

lemma startswith_append: "a \<noteq> [] \<Longrightarrow> startswith (a @ b) ''/'' = startswith a ''/''"
  by (cases a) (auto simp: startswith_def)

lemma key_Nil: "key [] = []"
  by (simp add: key_def startswith_def components_Nil)

lemma key_join_step:
  assumes "plain_segment s"
  shows "key (join_step a s) = key a @ [s]"
proof -
  from assms have s: "s \<noteq> []" "CHR ''/'' \<notin> set s" by (simp_all add: plain_segment_def)
  then have ns: "\<not> startswith s ''/''" by (cases s) (auto simp: startswith_def)
  show ?thesis
  proof (cases "a = []")
    case True
    with s ns show ?thesis
      by (simp add: join_step_def key_Nil) (simp add: key_def components_nosep)
  next
    case False
    show ?thesis
    proof (cases "last a = CHR ''/''")
      case True
      with False obtain a' where a: "a = a' @ ''/''" by (metis append_butlast_last_id)
      have "join_step a s = a' @ CHR ''/'' # s" using ns True False by (simp add: join_step_def a)
      moreover have "startswith (a' @ CHR ''/'' # s) ''/'' = startswith a ''/''"
        using startswith_append[OF False, of s] by (simp add: a)
      moreover have "components a = components a'" by (simp add: a components_snoc_sep)
      ultimately show ?thesis using s
        by (simp add: key_def components_append components_nosep)
    next
      case nl: False
      have "join_step a s = a @ CHR ''/'' # s" using ns nl \<open>a \<noteq> []\<close> by (simp add: join_step_def)
      moreover have "startswith (a @ CHR ''/'' # s) ''/'' = startswith a ''/''"
        by (rule startswith_append[OF \<open>a \<noteq> []\<close>])
      ultimately show ?thesis using s
        by (simp add: key_def components_append components_nosep)
    qed
  qed
qed

lemma key_path_join:
  "\<forall>s \<in> set segs. plain_segment s \<Longrightarrow> key (path_join a segs) = key a @ segs"
  unfolding path_join_def
  by (induction segs arbitrary: a) (simp_all add: key_join_step)

lemma key_output_file:
  assumes "\<forall>s \<in> set (split_on CHR ''.'' (package_of m)). plain_segment s"
    and "CHR ''/'' \<notin> set (module_name_of m)"
  shows "key (output_file_of m out)
      = key out @ split_on CHR ''.'' (package_of m) @ [module_name_of m @ ''.pyi'']"
proof -
  have "plain_segment (module_name_of m @ ''.pyi'')"
    using assms(2) by (simp add: plain_segment_def)
  with assms(1) show ?thesis
    unfolding output_file_of_def by (subst key_path_join) auto
qed

section \<open>Creating directories\<close>

lemma lookup_upd_other: "k \<noteq> k' \<Longrightarrow> lookup (f(k' \<mapsto> v)) k = lookup f k"
  by (simp add: lookup_def)

lemma lookup_None: "lookup f k = None \<Longrightarrow> f k = None"
  by (simp add: lookup_def split: if_splits)

lemma nonempty_prefix_Cons:
  "(\<exists>q. q \<noteq> [] \<and> prefix q (c # cs) \<and> P (pre @ q))
     = (P (pre @ [c]) \<or> (\<exists>q. q \<noteq> [] \<and> prefix q cs \<and> P ((pre @ [c]) @ q)))"
proof
  assume "\<exists>q. q \<noteq> [] \<and> prefix q (c # cs) \<and> P (pre @ q)"
  then obtain q where q: "q \<noteq> []" "prefix q (c # cs)" "P (pre @ q)" by blast
  then obtain q' where q': "q = c # q'" "prefix q' cs" by (cases q) (auto simp: prefix_Cons)
  show "P (pre @ [c]) \<or> (\<exists>q. q \<noteq> [] \<and> prefix q cs \<and> P ((pre @ [c]) @ q))"
  proof (cases "q' = []")
    case True
    with q q' show ?thesis by simp
  next
    case False
    with q q' show ?thesis by auto
  qed
next
  assume "P (pre @ [c]) \<or> (\<exists>q. q \<noteq> [] \<and> prefix q cs \<and> P ((pre @ [c]) @ q))"
  then show "\<exists>q. q \<noteq> [] \<and> prefix q (c # cs) \<and> P (pre @ q)"
  proof
    assume "P (pre @ [c])"
    then show ?thesis by (intro exI[of _ "[c]"]) simp
  next
    assume "\<exists>q. q \<noteq> [] \<and> prefix q cs \<and> P ((pre @ [c]) @ q)"
    then obtain q where "q \<noteq> []" "prefix q cs" "P ((pre @ [c]) @ q)" by blast
    then show ?thesis by (intro exI[of _ "c # q"]) simp
  qed
qed

lemma ok_dirs_Cons:
  "ok_dirs f pre (c # cs) =
     ((\<forall>x. lookup f (pre @ [c]) \<noteq> Some (File x)) \<and> ok_dirs f (pre @ [c]) cs)"
proof -
  have "(\<not> ok_dirs f pre (c # cs)) =
        (\<exists>q. q \<noteq> [] \<and> prefix q (c # cs) \<and> (\<exists>x. lookup f (pre @ q) = Some (File x)))"
    unfolding ok_dirs_def by blast
  also have "\<dots> = ((\<exists>x. lookup f (pre @ [c]) = Some (File x))
        \<or> (\<exists>q. q \<noteq> [] \<and> prefix q cs \<and> (\<exists>x. lookup f ((pre @ [c]) @ q) = Some (File x))))"
    by (rule nonempty_prefix_Cons[where P = "\<lambda>k. \<exists>x. lookup f k = Some (File x)"])
  also have "\<dots> = (\<not> ((\<forall>x. lookup f (pre @ [c]) \<noteq> Some (File x)) \<and> ok_dirs f (pre @ [c]) cs))"
    unfolding ok_dirs_def by blast
  finally show ?thesis by blast
qed

lemma ok_dirs_upd:
  "ok_dirs (f(pre @ [c] \<mapsto> Dir)) (pre @ [c]) cs = ok_dirs f (pre @ [c]) cs"
  unfolding ok_dirs_def by (simp add: lookup_def)

lemma with_dirs_Nil: "with_dirs f pre [] = f"
  by (simp add: with_dirs_def)

lemma with_dirs_Cons_None:
  assumes "lookup f (pre @ [c]) = None"
  shows "with_dirs (f(pre @ [c] \<mapsto> Dir)) (pre @ [c]) cs = with_dirs f pre (c # cs)"
proof
  fix k
  have e: "(\<exists>q. q \<noteq> [] \<and> prefix q (c # cs) \<and> k = pre @ q)
      = (k = pre @ [c] \<or> (\<exists>q. q \<noteq> [] \<and> prefix q cs \<and> k = (pre @ [c]) @ q))"
    by (rule nonempty_prefix_Cons[where P = "\<lambda>x. k = x"])
  show "with_dirs (f(pre @ [c] \<mapsto> Dir)) (pre @ [c]) cs k = with_dirs f pre (c # cs) k"
    unfolding with_dirs_def e using assms
    by (auto simp: lookup_def split: if_splits)
qed

lemma with_dirs_Cons_Dir:
  assumes "lookup f (pre @ [c]) = Some Dir"
  shows "with_dirs f (pre @ [c]) cs = with_dirs f pre (c # cs)"
proof
  fix k
  have e: "(\<exists>q. q \<noteq> [] \<and> prefix q (c # cs) \<and> k = pre @ q)
      = (k = pre @ [c] \<or> (\<exists>q. q \<noteq> [] \<and> prefix q cs \<and> k = (pre @ [c]) @ q))"
    by (rule nonempty_prefix_Cons[where P = "\<lambda>x. k = x"])
  show "with_dirs f (pre @ [c]) cs k = with_dirs f pre (c # cs) k"
    unfolding with_dirs_def e using assms
    by (auto simp: lookup_def split: if_splits)
qed

lemma mkdir_all_ok:
  "ok_dirs f pre cs \<Longrightarrow> mkdir_all f pre cs = (None, with_dirs f pre cs)"
proof (induction cs arbitrary: f pre)
  case Nil
  then show ?case by (simp add: with_dirs_Nil)
next
  case (Cons c cs)
  from Cons.prems have nf: "\<forall>x. lookup f (pre @ [c]) \<noteq> Some (File x)"
    and ok: "ok_dirs f (pre @ [c]) cs"
    by (simp_all add: ok_dirs_Cons)
  show ?case
  proof (cases "lookup f (pre @ [c])")
    case None
    have "ok_dirs (f(pre @ [c] \<mapsto> Dir)) (pre @ [c]) cs" using ok by (simp only: ok_dirs_upd)
    from Cons.IH[OF this]
    have "mkdir_all (f(pre @ [c] \<mapsto> Dir)) (pre @ [c]) cs = (None, with_dirs f pre (c # cs))"
      by (simp only: with_dirs_Cons_None[OF None])
    then show ?thesis by (simp only: mkdir_all.simps None option.case)
  next
    case (Some n)
    with nf have n: "lookup f (pre @ [c]) = Some Dir" by (cases n) auto
    from Cons.IH[OF ok]
    have "mkdir_all f (pre @ [c]) cs = (None, with_dirs f pre (c # cs))"
      by (simp only: with_dirs_Cons_Dir[OF n])
    then show ?thesis by (simp only: mkdir_all.simps n option.case node.case)
  qed
qed

lemma mkdir_all_None_ok:
  "mkdir_all f pre cs = (None, f1) \<Longrightarrow> ok_dirs f pre cs"
proof (induction cs arbitrary: f pre)
  case Nil
  then show ?case by (simp add: ok_dirs_def)
next
  case (Cons c cs)
  show ?case
  proof (cases "lookup f (pre @ [c])")
    case None
    with Cons.prems have "mkdir_all (f(pre @ [c] \<mapsto> Dir)) (pre @ [c]) cs = (None, f1)" by simp
    from Cons.IH[OF this] have "ok_dirs f (pre @ [c]) cs" by (simp only: ok_dirs_upd)
    with None show ?thesis by (simp add: ok_dirs_Cons)
  next
    case (Some n)
    with Cons.prems have n: "lookup f (pre @ [c]) = Some Dir" by (cases n) auto
    with Cons.prems have "mkdir_all f (pre @ [c]) cs = (None, f1)" by simp
    from Cons.IH[OF this] n show ?thesis by (simp add: ok_dirs_Cons)
  qed
qed

lemma mkdir_all_None:
  "mkdir_all f pre cs = (None, f1) \<Longrightarrow> ok_dirs f pre cs \<and> f1 = with_dirs f pre cs"
  using mkdir_all_None_ok mkdir_all_ok by (metis snd_conv)

lemma with_dirs_root_apply:
  "with_dirs f [] cs k = (if k \<noteq> [] \<and> prefix k cs \<and> lookup f k = None then Some Dir else f k)"
  by (auto simp: with_dirs_def)

lemma with_dirs_lookup:
  "lookup (with_dirs f [] cs) k =
     (if k \<noteq> [] \<and> prefix k cs \<and> lookup f k = None then Some Dir else lookup f k)"
  by (auto simp: with_dirs_root_apply lookup_def)

lemma rmtree_dir:
  "p \<noteq> [] \<Longrightarrow> lookup f (key p) = Some Dir \<Longrightarrow>
   rmtree f p = (None, \<lambda>k. if prefix (key p) k then None else f k)"
  by (simp add: rmtree_def)

lemma rmtree_agree:
  assumes "lookup f (key p) = Some Dir" "lookup g (key p) = Some Dir"
    and "\<forall>k. \<not> prefix (key p) k \<longrightarrow> g k = f k" and "p \<noteq> []"
  shows "rmtree g p = rmtree f p"
proof -
  have "(\<lambda>k. if prefix (key p) k then None else g k) = (\<lambda>k. if prefix (key p) k then None else f k)"
    using assms(3) by auto
  with assms(1,2,4) show ?thesis by (simp add: rmtree_def)
qed

section \<open>What a completed generate has done\<close>

lemma MSG_generate_NoneD:
  assumes "MSG_generate h self out f = (None, F)"
  defines "p \<equiv> output_file_of (h (obj self)) out"
  shows "\<exists>f1 tx.
     ((path_exists f (dirname p) \<and> f1 = f)
        \<or> (\<not> path_exists f (dirname p) \<and> dirname p \<noteq> []
             \<and> ok_dirs f [] (butlast (key p)) \<and> f1 = with_dirs f [] (butlast (key p))))
     \<and> lookup f1 (butlast (key p)) = Some Dir
     \<and> lookup f1 (key p) \<noteq> Some Dir
     \<and> write_members (members self) (header (mod_name (h (obj self)))) = (None, tx)
     \<and> F = f1(key p \<mapsto> File tx)"
proof -
  define root where "root = dirname p"
  have rk: "key root = butlast (key p)" unfolding root_def p_def by (rule outkey_dirname)
  note unf = MSG_generate_def[of h self out f, unfolded Let_def, folded p_def, folded root_def]
  obtain r1 f1 where s1: "(if \<not> path_exists f root then makedirs f root else (None, f)) = (r1, f1)"
    by (cases "if \<not> path_exists f root then makedirs f root else (None, f)")
  from assms(1) have r1: "r1 = None"
    unfolding unf s1 by (cases r1) simp_all
  obtain r2 f2 where s2: "open_w f1 p = (r2, f2)" by (cases "open_w f1 p")
  from assms(1) have r2: "r2 = None"
    unfolding unf s1 r1 by (cases r2) (simp_all add: s2)
  obtain r3 tx where s3: "write_members (members self) (header (mod_name (h (obj self)))) = (r3, tx)"
    by (cases "write_members (members self) (header (mod_name (h (obj self))))")
  from assms(1) have r3: "r3 = None" and F: "F = f2(key p \<mapsto> File tx)"
    unfolding unf s1 r1 by (simp_all add: s2 r2 s3)
  from s2 r2 have o: "lookup f1 (key p) \<noteq> Some Dir" "lookup f1 (butlast (key p)) = Some Dir"
      "f2 = f1(key p \<mapsto> File [])"
    by (auto simp: open_w_def split: if_splits option.splits node.splits)
  have c: "(path_exists f root \<and> f1 = f)
        \<or> (\<not> path_exists f root \<and> root \<noteq> []
             \<and> ok_dirs f [] (butlast (key p)) \<and> f1 = with_dirs f [] (butlast (key p)))"
  proof (cases "path_exists f root")
    case True
    with s1 show ?thesis by simp
  next
    case False
    with s1 r1 have m: "makedirs f root = (None, f1)" by simp
    then have "root \<noteq> []" and "mkdir_all f [] (key root) = (None, f1)"
      by (auto simp: makedirs_def split: if_splits)
    with mkdir_all_None[of f "[]" "key root" f1] False show ?thesis by (simp add: rk)
  qed
  from c o s3 r3 F show ?thesis unfolding root_def by auto
qed


lemma prefix_butlast_neq:
  assumes "k0 \<noteq> []" and "prefix q (butlast k0)"
  shows "q \<noteq> k0"
proof
  assume "q = k0"
  with assms(2) have "prefix k0 (butlast k0)" by simp
  then have "length k0 \<le> length (butlast k0)" by (rule prefix_length_le)
  with assms(1) show False by (cases k0 rule: rev_cases) auto
qed

lemma MSG_generate_effect:
  assumes "MSG_generate h self out f = (None, F)"
  defines "p \<equiv> output_file_of (h (obj self)) out"
  shows "lookup F (key (dirname p)) = Some Dir"
    and "\<exists>tx. write_members (members self) (header (mod_name (h (obj self)))) = (None, tx)
            \<and> F (key p) = Some (File tx)"
    and "\<not> path_exists f (dirname p) \<Longrightarrow> q \<noteq> [] \<Longrightarrow> prefix q (key (dirname p))
            \<Longrightarrow> lookup F q = Some Dir"
    and "k \<noteq> key p \<Longrightarrow> F k = f k \<or> (f k = None \<and> F k = Some Dir)"
proof -
  have kd: "key (dirname p) = butlast (key p)" unfolding p_def by (rule outkey_dirname)
  have nr: "key p \<noteq> []" "key p \<noteq> [''/'']" "butlast (key p) \<noteq> key p"
    unfolding p_def by (rule outkey_not_root)+
  from MSG_generate_NoneD[OF assms(1), folded p_def] obtain f1 tx where
    c: "(path_exists f (dirname p) \<and> f1 = f)
        \<or> (\<not> path_exists f (dirname p) \<and> dirname p \<noteq> []
             \<and> ok_dirs f [] (butlast (key p)) \<and> f1 = with_dirs f [] (butlast (key p)))"
    and d1: "lookup f1 (butlast (key p)) = Some Dir"
    and wm: "write_members (members self) (header (mod_name (h (obj self)))) = (None, tx)"
    and F: "F = f1(key p \<mapsto> File tx)"
    by blast
  have other: "lookup F k = lookup f1 k" if "k \<noteq> key p" for k
    using that by (simp add: F lookup_def)
  show "lookup F (key (dirname p)) = Some Dir"
    using d1 nr(3) by (simp add: kd other)
  show "\<exists>tx. write_members (members self) (header (mod_name (h (obj self)))) = (None, tx)
            \<and> F (key p) = Some (File tx)"
    using wm by (simp add: F)
  show "lookup F q = Some Dir"
    if a: "\<not> path_exists f (dirname p)" "q \<noteq> []" "prefix q (key (dirname p))"
  proof -
    from a(1) c have ok: "ok_dirs f [] (butlast (key p))"
      and f1: "f1 = with_dirs f [] (butlast (key p))" by blast+
    from a(3) have pq: "prefix q (butlast (key p))" by (simp add: kd)
    from ok a(2) pq have nf: "\<forall>c. lookup f q \<noteq> Some (File c)"
      unfolding ok_dirs_def by (metis append_Nil)
    have "lookup f1 q = Some Dir"
    proof (cases "lookup f q")
      case None
      with a(2) pq show ?thesis by (simp add: f1 with_dirs_lookup)
    next
      case (Some n)
      with nf have "lookup f q = Some Dir" by (cases n) auto
      with a(2) pq show ?thesis by (simp add: f1 with_dirs_lookup)
    qed
    moreover have "q \<noteq> key p" using prefix_butlast_neq[OF nr(1) pq] .
    ultimately show ?thesis by (simp add: other)
  qed
  show "F k = f k \<or> (f k = None \<and> F k = Some Dir)" if "k \<noteq> key p"
  proof -
    from that have "F k = f1 k" by (simp add: F)
    moreover from c have "f1 k = f k \<or> (f k = None \<and> f1 k = Some Dir)"
      by (auto simp: with_dirs_root_apply dest: lookup_None split: if_splits)
    ultimately show ?thesis by simp
  qed
qed

section \<open>The walker\<close>

lemma stubs_loop_append:
  "stubs_loop d imp h out (xs @ ys) f =
     (case stubs_loop d imp h out xs f of
        (Some e, f1) \<Rightarrow> (Some e, f1)
      | (None, f1) \<Rightarrow> stubs_loop d imp h out ys f1)"
proof (induction xs arbitrary: f)
  case Nil
  then show ?case by simp
next
  case (Cons x xs)
  obtain name ispkg where x: "x = (name, ispkg)" by (cases x)
  show ?case unfolding x
    by (auto simp: Cons.IH split: sum.splits prod.splits option.splits)
qed

lemma stubs_loop_append_NoneD:
  assumes "stubs_loop d imp h out (xs @ ys) f = (None, F)"
  shows "\<exists>f1. stubs_loop d imp h out xs f = (None, f1) \<and> stubs_loop d imp h out ys f1 = (None, F)"
  using assms unfolding stubs_loop_append
  by (cases "stubs_loop d imp h out xs f") (auto split: option.splits)

lemma stubs_loop_Cons_NoneD:
  assumes "stubs_loop d imp h out ((name, ispkg) # rest) f = (None, F)"
  shows "\<exists>loaded f1. import_module imp name = Inr loaded
     \<and> (if ispkg then generate_stubs d imp h loaded out (Some (str_opt (mod_package (h loaded)))) f
         else MSG_generate h (MSG_init h loaded) out f) = (None, f1)
     \<and> stubs_loop d imp h out rest f1 = (None, F)"
  using assms by (auto split: sum.splits prod.splits option.splits)

lemma generate_stubs_NoneD:
  assumes "generate_stubs d imp h m out pkg f = (None, F)"
  shows "\<exists>d' path. d = Suc d' \<and> mod_path (h m) = Some path
     \<and> stubs_loop d' imp h out
          (iter_modules imp path
             (str_opt (case pkg of None \<Rightarrow> mod_package (h m) | Some p \<Rightarrow> Some p) @ ''.'')) f
        = (None, F)"
  using assms by (cases d) (auto simp: Let_def split: option.splits)

section \<open>A run repeated on its own result\<close>


















section \<open>Evaluations on the example package\<close>

lemma ex_generate_completes: "fst (MSG_generate ex_heap (MSG_init ex_heap 1) ''o'' Map.empty) = None"
  by code_simp




lemma ex_fs_agree: "\<forall>k. \<not> prefix (key ''o'') k \<longrightarrow> ex_fs2 k = ex_fs k"
proof -
  have k: "key ''o'' = [''o'']" by code_simp
  show ?thesis unfolding k by (auto simp: ex_fs_def ex_fs2_def)
qed

section \<open>The claims\<close>

text \<open>
  Claim C1. For a member that is not a class, plain function, module or builtin callable,
  generate writes the line \<open>name: TypeName\<close> (with \<open>None\<close> for the type of the null
  singleton), and the trailing comment is to report the defining module of the value's
  runtime type and whether that module is \<open>builtins\<close>.

  The code takes the module from the class of the type's name, a string, so the comment is
  \<open>builtins True\<close> for every value. For an instance of a class \<open>Foo\<close> defined in module
  \<open>pkg.mod\<close> the line does not mention \<open>pkg.mod\<close>; for \<open>None\<close> the line is the one the
  claim describes.
\<close>

theorem C1_comment_ignores_type_module:
  "member_text ''x'' (ex_value ''Foo'' ''pkg.mod'') = Inr ''x: Foo # builtin: builtins True''
   \<and> type_module (ex_value ''Foo'' ''pkg.mod'') = ''pkg.mod''
   \<and> member_text ''X'' (ex_value ''NoneType'' ''builtins'') = Inr ''X: None # builtin: builtins True''"
  by (simp add: member_text_def ex_value_def str_class_module_def str_bool_def)



text \<open>
  Claim C3. In the file written by a generate that returns normally, the text after the
  header consists of exactly one block per member whose name does not start with two
  underscores, in the order of the members, each block being the text of that member
  followed by a blank line; members whose names start with two underscores contribute
  nothing: the result is the one for the member list without them. Whatever the outcome
  of the member loop, what it has written after the header are the blocks of the first
  such members, so no member whose name starts with two underscores appears in a file
  that a failing generate leaves behind either.
\<close>

theorem C3_blocks_of_nondunder_members:
  "(MSG_generate h self out f = (None, F) \<longrightarrow>
      (\<exists>texts.
          map (\<lambda>(name, member). member_text name member) (filter nondunder (members self))
            = map Inr texts
        \<and> F (key (output_file_of (h (obj self)) out))
            = Some (File (header (mod_name (h (obj self)))
                           @ concat (map (\<lambda>t. t @ ''\<newline>\<newline>'') texts))))
      \<and> MSG_generate h (self\<lparr>members := filter nondunder (members self)\<rparr>) out f = (None, F))
   \<and> (write_members (members self) (header (mod_name (h (obj self)))) = (r, tx) \<longrightarrow>
      (\<exists>texts.
          prefix (map Inr texts)
            (map (\<lambda>(name, member). member_text name member) (filter nondunder (members self)))
        \<and> tx = header (mod_name (h (obj self)))
                @ concat (map (\<lambda>t. t @ ''\<newline>\<newline>'') texts)))"
proof (intro conjI impI)
  assume g: "MSG_generate h self out f = (None, F)"
  from MSG_generate_effect(2)[OF g] obtain tx' where
    w: "write_members (members self) (header (mod_name (h (obj self)))) = (None, tx')"
    and F: "F (key (output_file_of (h (obj self)) out)) = Some (File tx')" by blast
  from write_members_blocks[OF w] F
  show "\<exists>texts.
          map (\<lambda>(name, member). member_text name member) (filter nondunder (members self))
            = map Inr texts
        \<and> F (key (output_file_of (h (obj self)) out))
            = Some (File (header (mod_name (h (obj self)))
                           @ concat (map (\<lambda>t. t @ ''\<newline>\<newline>'') texts)))"
    by auto
  have "MSG_generate h (self\<lparr>members := filter nondunder (members self)\<rparr>) out f
      = MSG_generate h self out f"
    by (simp add: MSG_generate_def write_members_filter cong: prod.case_cong option.case_cong)
  with g show "MSG_generate h (self\<lparr>members := filter nondunder (members self)\<rparr>) out f = (None, F)"
    by simp
next
  assume "write_members (members self) (header (mod_name (h (obj self)))) = (r, tx)"
  then show "\<exists>texts.
          prefix (map Inr texts)
            (map (\<lambda>(name, member). member_text name member) (filter nondunder (members self)))
        \<and> tx = header (mod_name (h (obj self)))
                @ concat (map (\<lambda>t. t @ ''\<newline>\<newline>'') texts)"
    by (rule write_members_partial)
qed

theorem C3_blocks_of_nondunder_members_witness:
  "MSG_generate ex_heap (MSG_init ex_heap 1) ''o'' Map.empty
      = (None, snd (MSG_generate ex_heap (MSG_init ex_heap 1) ''o'' Map.empty))
   \<and> (\<exists>texts.
      map (\<lambda>(name, member). member_text name member)
          (filter nondunder (members (MSG_init ex_heap 1))) = map Inr texts
    \<and> snd (MSG_generate ex_heap (MSG_init ex_heap 1) ''o'' Map.empty)
         (key (output_file_of (ex_heap (obj (MSG_init ex_heap 1))) ''o''))
        = Some (File (header (mod_name (ex_heap (obj (MSG_init ex_heap 1))))
                       @ concat (map (\<lambda>t. t @ ''\<newline>\<newline>'') texts))))
   \<and> MSG_generate ex_heap
        ((MSG_init ex_heap 1)\<lparr>members := filter nondunder (members (MSG_init ex_heap 1))\<rparr>)
        ''o'' Map.empty
      = (None, snd (MSG_generate ex_heap (MSG_init ex_heap 1) ''o'' Map.empty))
   \<and> map fst (members (MSG_init ex_heap 1)) = [''Foo'', ''X'', ''__version__'', ''add'']
   \<and> snd (MSG_generate ex_heap (MSG_init ex_heap 1) ''o'' Map.empty) [''o'', ''p'', ''a.pyi'']
      = Some (File ''# Auto generatded stub from stubby.py p.a\<newline>\<newline>class Foo:\<newline>    ...\<newline>\<newline>X: None # builtin: builtins True\<newline>\<newline>def add(a, b=1): ...\<newline>\<newline>'')
   \<and> write_members (members ex_gen_partial) (header (mod_name (ex_heap (obj ex_gen_partial))))
      = (Some ValueError, ''# Auto generatded stub from stubby.py p.a\<newline>\<newline>Y: int # builtin: builtins True\<newline>\<newline>'')
   \<and> (\<exists>texts.
          prefix (map Inr texts)
            (map (\<lambda>(name, member). member_text name member)
                 (filter nondunder (members ex_gen_partial)))
        \<and> ''# Auto generatded stub from stubby.py p.a\<newline>\<newline>Y: int # builtin: builtins True\<newline>\<newline>''
            = header (mod_name (ex_heap (obj ex_gen_partial)))
                @ concat (map (\<lambda>t. t @ ''\<newline>\<newline>'') texts))"
proof -
  have h: "MSG_generate ex_heap (MSG_init ex_heap 1) ''o'' Map.empty
      = (None, snd (MSG_generate ex_heap (MSG_init ex_heap 1) ''o'' Map.empty))"
    using ex_generate_completes by (metis prod.collapse)
  have n: "map fst (members (MSG_init ex_heap 1)) = [''Foo'', ''X'', ''__version__'', ''add'']"
    by code_simp
  have c: "snd (MSG_generate ex_heap (MSG_init ex_heap 1) ''o'' Map.empty) [''o'', ''p'', ''a.pyi'']
      = Some (File ''# Auto generatded stub from stubby.py p.a\<newline>\<newline>class Foo:\<newline>    ...\<newline>\<newline>X: None # builtin: builtins True\<newline>\<newline>def add(a, b=1): ...\<newline>\<newline>'')"
    by code_simp
  have w: "write_members (members ex_gen_partial) (header (mod_name (ex_heap (obj ex_gen_partial))))
      = (Some ValueError, ''# Auto generatded stub from stubby.py p.a\<newline>\<newline>Y: int # builtin: builtins True\<newline>\<newline>'')"
    by code_simp
  note a = C3_blocks_of_nondunder_members[where h = ex_heap and self = "MSG_init ex_heap 1"
      and out = "''o''" and f = Map.empty
      and F = "snd (MSG_generate ex_heap (MSG_init ex_heap 1) ''o'' Map.empty)",
      THEN conjunct1, THEN mp, OF h]
  note b = C3_blocks_of_nondunder_members[where h = ex_heap and self = ex_gen_partial
      and r = "Some ValueError"
      and tx = "''# Auto generatded stub from stubby.py p.a\<newline>\<newline>Y: int # builtin: builtins True\<newline>\<newline>''",
      THEN conjunct2, THEN mp, OF w]
  show ?thesis
    by (intro conjI h a[THEN conjunct1] a[THEN conjunct2] n c w b)
qed

text \<open>
  Claim C4. With the flush flag set and the output directory existing, StubGenerator.generate
  is the walk started from the file system in which nothing at or below the output
  directory is left; so the result does not depend on what the directory held before, and
  what is below it after a completed run has been created by that run.
\<close>

theorem C4_flush_deletes_subtree:
  assumes "path_exists f out" and "lookup f (key out) = Some Dir"
  shows "SG_generate d imp h m out True f
           = generate_stubs d imp h m out None (\<lambda>k. if prefix (key out) k then None else f k)
       \<and> (\<forall>g. lookup g (key out) = Some Dir \<and> (\<forall>k. \<not> prefix (key out) k \<longrightarrow> g k = f k)
              \<longrightarrow> SG_generate d imp h m out True g = SG_generate d imp h m out True f)"
proof -
  from assms(1) have ne: "out \<noteq> []" by (simp add: path_exists_def)
  have 1: "SG_generate d imp h m out True f
           = generate_stubs d imp h m out None (\<lambda>k. if prefix (key out) k then None else f k)"
    using assms ne by (simp add: SG_generate_def rmtree_dir)
  have 2: "SG_generate d imp h m out True g = SG_generate d imp h m out True f"
    if g: "lookup g (key out) = Some Dir" "\<forall>k. \<not> prefix (key out) k \<longrightarrow> g k = f k" for g
  proof -
    have "path_exists g out" using g(1) ne by (simp add: path_exists_def)
    moreover have "rmtree g out = rmtree f out" using rmtree_agree[OF assms(2) g ne] .
    ultimately show ?thesis using assms(1) by (simp add: SG_generate_def)
  qed
  from 1 2 show ?thesis by blast
qed

theorem C4_flush_deletes_subtree_witness:
  "path_exists ex_fs ''o'' \<and> lookup ex_fs (key ''o'') = Some Dir
   \<and> SG_generate 2 ex_importer ex_heap 0 ''o'' True ex_fs
       = generate_stubs 2 ex_importer ex_heap 0 ''o'' None
           (\<lambda>k. if prefix (key ''o'') k then None else ex_fs k)
   \<and> SG_generate 2 ex_importer ex_heap 0 ''o'' True ex_fs2
       = SG_generate 2 ex_importer ex_heap 0 ''o'' True ex_fs
   \<and> ex_fs [''o'', ''old''] = Some (File ''x'')
   \<and> snd (SG_generate 2 ex_importer ex_heap 0 ''o'' True ex_fs) [''o'', ''old''] = None"
proof -
  have h1: "path_exists ex_fs ''o''" by code_simp
  have h2: "lookup ex_fs (key ''o'') = Some Dir" by code_simp
  have h3: "lookup ex_fs2 (key ''o'') = Some Dir" by code_simp
  have e1: "ex_fs [''o'', ''old''] = Some (File ''x'')" by code_simp
  have e2: "snd (SG_generate 2 ex_importer ex_heap 0 ''o'' True ex_fs) [''o'', ''old''] = None"
    by code_simp
  from C4_flush_deletes_subtree[OF h1 h2, of 2 ex_importer ex_heap 0] h1 h2 h3 ex_fs_agree e1 e2
  show ?thesis by blast
qed



text \<open>
  Claim C6. The output path of a module is the output root joined with the pieces of the
  dotted package name and with the bare module name plus \<open>.pyi\<close>, the bare name being the
  module's name without the prefix \<open>package.\<close>. For a package name whose pieces are plain
  components, the path resolves to the components of the output root, followed by those
  pieces and by the file name. When generate returns normally the destination directory
  exists, the file exists, and, if the directory was missing, every directory on the way to
  it exists; when the directory is missing and cannot be created, generate stops with the
  error of the creation, before it opens the file.
\<close>

theorem C6_output_path_and_directory:
  assumes "m = h (obj self)" and "p = output_file_of m out"
  shows "p = path_join out
               (split_on CHR ''.'' (str_opt (mod_package m))
                @ [removeprefix (mod_name m) (str_opt (mod_package m) @ ''.'') @ ''.pyi''])
    \<and> ((\<forall>s \<in> set (split_on CHR ''.'' (str_opt (mod_package m))). plain_segment s)
          \<and> CHR ''/'' \<notin> set (removeprefix (mod_name m) (str_opt (mod_package m) @ ''.''))
        \<longrightarrow> key p = key out @ split_on CHR ''.'' (str_opt (mod_package m))
                      @ [removeprefix (mod_name m) (str_opt (mod_package m) @ ''.'') @ ''.pyi''])
    \<and> (MSG_generate h self out f = (None, F)
        \<longrightarrow> lookup F (key (dirname p)) = Some Dir
          \<and> (\<exists>tx. F (key p) = Some (File tx))
          \<and> (\<not> path_exists f (dirname p)
               \<longrightarrow> (\<forall>q. q \<noteq> [] \<and> prefix q (key (dirname p)) \<longrightarrow> lookup F q = Some Dir)))
    \<and> (\<not> path_exists f (dirname p) \<and> fst (makedirs f (dirname p)) \<noteq> None
        \<longrightarrow> MSG_generate h self out f = makedirs f (dirname p))"
proof (intro conjI impI)
  show "p = path_join out
               (split_on CHR ''.'' (str_opt (mod_package m))
                @ [removeprefix (mod_name m) (str_opt (mod_package m) @ ''.'') @ ''.pyi''])"
    by (simp add: assms(2) output_file_of_def module_name_of_def package_of_def)
next
  assume "(\<forall>s \<in> set (split_on CHR ''.'' (str_opt (mod_package m))). plain_segment s)
          \<and> CHR ''/'' \<notin> set (removeprefix (mod_name m) (str_opt (mod_package m) @ ''.''))"
  then show "key p = key out @ split_on CHR ''.'' (str_opt (mod_package m))
                      @ [removeprefix (mod_name m) (str_opt (mod_package m) @ ''.'') @ ''.pyi'']"
    using key_output_file[of m out] by (simp add: assms(2) module_name_of_def package_of_def)
next
  assume g: "MSG_generate h self out f = (None, F)"
  show "lookup F (key (dirname p)) = Some Dir"
    using MSG_generate_effect(1)[OF g] by (simp add: assms)
  show "\<exists>tx. F (key p) = Some (File tx)"
    using MSG_generate_effect(2)[OF g] by (auto simp: assms)
  assume n: "\<not> path_exists f (dirname p)"
  show "\<forall>q. q \<noteq> [] \<and> prefix q (key (dirname p)) \<longrightarrow> lookup F q = Some Dir"
    using MSG_generate_effect(3)[OF g] n by (simp add: assms)
next
  assume a: "\<not> path_exists f (dirname p) \<and> fst (makedirs f (dirname p)) \<noteq> None"
  then obtain e f1 where m: "makedirs f (dirname p) = (Some e, f1)"
    by (cases "makedirs f (dirname p)") auto
  note unf = MSG_generate_def[of h self out f, unfolded Let_def, folded assms(1), folded assms(2)]
  show "MSG_generate h self out f = makedirs f (dirname p)"
    unfolding unf using a by (simp add: m)
qed

theorem C6_output_path_and_directory_witness:
  "output_file_of (ex_heap 1) ''o'' = ''o/p/a.pyi''
   \<and> split_on CHR ''.'' (str_opt (mod_package (ex_heap 1))) = [''p'']
   \<and> plain_segment ''p''
   \<and> CHR ''/'' \<notin> set (removeprefix (mod_name (ex_heap 1)) (str_opt (mod_package (ex_heap 1)) @ ''.''))
   \<and> key (output_file_of (ex_heap 1) ''o'') = [''o'', ''p'', ''a.pyi'']
   \<and> \<not> path_exists Map.empty (dirname (output_file_of (ex_heap 1) ''o''))
   \<and> MSG_generate ex_heap (MSG_init ex_heap 1) ''o'' Map.empty
      = (None, snd (MSG_generate ex_heap (MSG_init ex_heap 1) ''o'' Map.empty))
   \<and> lookup (snd (MSG_generate ex_heap (MSG_init ex_heap 1) ''o'' Map.empty)) [''o''] = Some Dir
   \<and> lookup (snd (MSG_generate ex_heap (MSG_init ex_heap 1) ''o'' Map.empty)) [''o'', ''p''] = Some Dir
   \<and> (\<exists>tx. snd (MSG_generate ex_heap (MSG_init ex_heap 1) ''o'' Map.empty) [''o'', ''p'', ''a.pyi'']
          = Some (File tx))
   \<and> \<not> path_exists ex_fs_file (dirname (output_file_of (ex_heap 1) ''o''))
   \<and> fst (makedirs ex_fs_file (dirname (output_file_of (ex_heap 1) ''o''))) \<noteq> None
   \<and> MSG_generate ex_heap (MSG_init ex_heap 1) ''o'' ex_fs_file = (Some NotADirectoryError, ex_fs_file)"
proof -
  define F where "F = snd (MSG_generate ex_heap (MSG_init ex_heap 1) ''o'' Map.empty)"
  have m: "ex_heap 1 = ex_heap (obj (MSG_init ex_heap 1))" by (simp add: MSG_init_def)
  have p: "output_file_of (ex_heap 1) ''o'' = ''o/p/a.pyi''" by code_simp
  have s0: "split_on CHR ''.'' (str_opt (mod_package (ex_heap 1))) = [''p'']" by code_simp
  have s0': "plain_segment ''p''" by code_simp
  have s1: "\<forall>s \<in> set (split_on CHR ''.'' (str_opt (mod_package (ex_heap 1)))). plain_segment s"
    unfolding s0 using s0' by simp
  have s2: "CHR ''/'' \<notin> set (removeprefix (mod_name (ex_heap 1)) (str_opt (mod_package (ex_heap 1)) @ ''.''))"
    by code_simp
  have k: "key out @ split_on CHR ''.'' (str_opt (mod_package (ex_heap 1)))
       @ [removeprefix (mod_name (ex_heap 1)) (str_opt (mod_package (ex_heap 1)) @ ''.'') @ ''.pyi'']
       = [''o'', ''p'', ''a.pyi'']" if "out = ''o''" for out
    unfolding that by code_simp
  have d: "key (dirname ''o/p/a.pyi'') = [''o'', ''p'']" by code_simp
  have n: "\<not> path_exists Map.empty (dirname ''o/p/a.pyi'')" by code_simp
  have g: "MSG_generate ex_heap (MSG_init ex_heap 1) ''o'' Map.empty = (None, F)"
    unfolding F_def using ex_generate_completes by (metis prod.collapse)
  have n2: "\<not> path_exists ex_fs_file (dirname ''o/p/a.pyi'')" by code_simp
  have dn: "dirname ''o/p/a.pyi'' = ''o/p''" by code_simp
  have mk: "makedirs ex_fs_file (dirname ''o/p/a.pyi'') = (Some NotADirectoryError, ex_fs_file)"
    using d by (simp add: makedirs_def dn lookup_def ex_fs_file_def)
  have pre: "prefix [''o''] [''o'', ''p'']" "prefix [''o'', ''p''] [''o'', ''p'']" by simp_all
  note a = C6_output_path_and_directory[where m = "ex_heap 1" and h = ex_heap and self = "MSG_init ex_heap 1"
      and p = "output_file_of (ex_heap 1) ''o''" and out = "''o''" and f = Map.empty
      and F = F, OF m refl, unfolded p d]
  note b = C6_output_path_and_directory[where m = "ex_heap 1" and h = ex_heap and self = "MSG_init ex_heap 1"
      and p = "output_file_of (ex_heap 1) ''o''" and out = "''o''" and f = ex_fs_file
      and F = F, OF m refl, unfolded p d]
  have "key ''o/p/a.pyi'' = key ''o'' @ split_on CHR ''.'' (str_opt (mod_package (ex_heap 1)))
       @ [removeprefix (mod_name (ex_heap 1)) (str_opt (mod_package (ex_heap 1)) @ ''.'') @ ''.pyi'']"
    by (rule a[THEN conjunct2, THEN conjunct1, THEN mp]) (use s1 s2 in blast)
  then have kp: "key ''o/p/a.pyi'' = [''o'', ''p'', ''a.pyi'']" by (simp only: k[OF refl])
  note a3 = a[THEN conjunct2, THEN conjunct2, THEN conjunct1, THEN mp, OF g]
  from a3 n pre have l1: "lookup F [''o''] = Some Dir" and l2: "lookup F [''o'', ''p''] = Some Dir"
    by blast+
  from a3 have l3: "\<exists>tx. F [''o'', ''p'', ''a.pyi''] = Some (File tx)"
    unfolding kp by blast
  have "fst (makedirs ex_fs_file (dirname ''o/p/a.pyi'')) \<noteq> None" by (simp add: mk)
  with b n2 have "MSG_generate ex_heap (MSG_init ex_heap 1) ''o'' ex_fs_file
      = makedirs ex_fs_file (dirname ''o/p/a.pyi'')" by blast
  then have e: "MSG_generate ex_heap (MSG_init ex_heap 1) ''o'' ex_fs_file
      = (Some NotADirectoryError, ex_fs_file)" by (simp only: mk)
  have f: "fst (makedirs ex_fs_file (dirname ''o/p/a.pyi'')) \<noteq> None" by (simp add: mk)
  show ?thesis
    unfolding p F_def[symmetric]
    by (intro conjI refl s0 s0' s2 kp n g l1 l2 l3 n2 f e)
qed

text \<open>
  Claim C7. No error is caught. In the loop of the walker, a failing import, a failing
  renderer and a failing recursive call each end the loop with that error, the remaining
  children are not visited, and an error after some completed children is the result of the
  whole loop; the error of the loop is the error of \<open>_generate_stubs\<close>, as is a missing
  search path; an error of the flush or of the walk is the error of StubGenerator.generate.
  In the renderer, an error of the directory creation, of opening the file or of rendering a
  signature is the error of ModuleStubGenerator.generate.
\<close>

theorem C7_errors_propagate:
  "(import_module imp name = Inl e
      \<longrightarrow> stubs_loop d imp h out ((name, ispkg) # rest) f = (Some e, f))
 \<and> (import_module imp name = Inr loaded
      \<and> MSG_generate h (MSG_init h loaded) out f = (Some e, f1)
      \<longrightarrow> stubs_loop d imp h out ((name, False) # rest) f = (Some e, f1))
 \<and> (import_module imp name = Inr loaded
      \<and> generate_stubs d imp h loaded out (Some (str_opt (mod_package (h loaded)))) f = (Some e, f1)
      \<longrightarrow> stubs_loop d imp h out ((name, True) # rest) f = (Some e, f1))
 \<and> (stubs_loop d imp h out xs f = (None, f1) \<and> stubs_loop d imp h out ys f1 = (Some e, f2)
      \<longrightarrow> stubs_loop d imp h out (xs @ ys @ zs) f = (Some e, f2))
 \<and> (mod_path (h m) = None
      \<longrightarrow> generate_stubs (Suc d) imp h m out pkg f = (Some AttributeError, f))
 \<and> (mod_path (h m) = Some path
      \<and> stubs_loop d imp h out
           (iter_modules imp path
              (str_opt (case pkg of None \<Rightarrow> mod_package (h m) | Some p \<Rightarrow> Some p) @ ''.'')) f
          = (Some e, f1)
      \<longrightarrow> generate_stubs (Suc d) imp h m out pkg f = (Some e, f1))
 \<and> (flush \<and> path_exists f out \<and> rmtree f out = (Some e, f1)
      \<longrightarrow> SG_generate d imp h m out flush f = (Some e, f1))
 \<and> ((if flush \<and> path_exists f out then rmtree f out else (None, f)) = (None, f1)
      \<and> generate_stubs d imp h m out None f1 = (Some e, f2)
      \<longrightarrow> SG_generate d imp h m out flush f = (Some e, f2))
 \<and> (\<not> path_exists f (dirname (output_file_of (h (obj self)) out))
      \<and> makedirs f (dirname (output_file_of (h (obj self)) out)) = (Some e, f1)
      \<longrightarrow> MSG_generate h self out f = (Some e, f1))
 \<and> ((if \<not> path_exists f (dirname (output_file_of (h (obj self)) out))
        then makedirs f (dirname (output_file_of (h (obj self)) out)) else (None, f)) = (None, f1)
      \<and> open_w f1 (output_file_of (h (obj self)) out) = (Some e, f2)
      \<longrightarrow> MSG_generate h self out f = (Some e, f2))
 \<and> ((if \<not> path_exists f (dirname (output_file_of (h (obj self)) out))
        then makedirs f (dirname (output_file_of (h (obj self)) out)) else (None, f)) = (None, f1)
      \<and> open_w f1 (output_file_of (h (obj self)) out) = (None, f2)
      \<and> write_members (members self) (header (mod_name (h (obj self)))) = (Some e, tx)
      \<longrightarrow> MSG_generate h self out f
            = (Some e, f2(key (output_file_of (h (obj self)) out) \<mapsto> File tx)))
 \<and> (\<not> startswith name ''__'' \<and> is_function member \<and> \<not> is_class member
      \<and> signature member = Inl e
      \<longrightarrow> write_members ((name, member) # ms) buf = (Some e, buf))"
proof -
  note unf = MSG_generate_def[of h self out f, unfolded Let_def]
  have loop: "stubs_loop d imp h out (xs @ ys @ zs) f = (Some e, f2)"
    if "stubs_loop d imp h out xs f = (None, f1)" "stubs_loop d imp h out ys f1 = (Some e, f2)"
    using that by (simp add: stubs_loop_append)
  show ?thesis
    apply (intro conjI impI)
               apply simp
              apply simp
             apply simp
            apply (erule conjE, erule (1) loop)
           apply simp
          apply (simp add: Let_def)
         apply (simp add: SG_generate_def)
        apply (simp add: SG_generate_def)
       apply (simp add: unf)
      apply (simp add: unf)
     apply (simp add: unf)
    apply (simp add: member_text_def)
    done
qed

theorem C7_errors_propagate_witness:
  "import_module ex_importer_bad ''p.s.b'' = Inl ImportError
   \<and> stubs_loop 0 ex_importer_bad ex_heap ''o'' [(''p.s.b'', False), (''p.s.c'', False)] Map.empty
       = (Some ImportError, Map.empty)
   \<and> import_module ex_importer ''p.a'' = Inr 1
   \<and> MSG_generate ex_heap (MSG_init ex_heap 1) ''o'' ex_fs_file
       = (Some NotADirectoryError, ex_fs_file)
   \<and> stubs_loop 1 ex_importer ex_heap ''o'' [(''p.a'', False), (''p.s'', True)] ex_fs_file
       = (Some NotADirectoryError, ex_fs_file)
   \<and> import_module ex_importer_bad ''p.s'' = Inr 2
   \<and> generate_stubs 1 ex_importer_bad ex_heap 2 ''o'' (Some (str_opt (mod_package (ex_heap 2))))
        Map.empty = (Some ImportError, Map.empty)
   \<and> stubs_loop 1 ex_importer_bad ex_heap ''o'' [(''p.s'', True), (''p.t'', False)] Map.empty
       = (Some ImportError, Map.empty)
   \<and> stubs_loop 1 ex_importer_bad ex_heap ''o'' [(''p.a'', False)] Map.empty
       = (None, snd (stubs_loop 1 ex_importer_bad ex_heap ''o'' [(''p.a'', False)] Map.empty))
   \<and> stubs_loop 1 ex_importer_bad ex_heap ''o''
        ([(''p.a'', False)] @ [(''p.s'', True)] @ [(''p.t'', False)]) Map.empty
       = (Some ImportError,
          snd (stubs_loop 1 ex_importer_bad ex_heap ''o'' [(''p.a'', False)] Map.empty))
   \<and> mod_path (ex_heap 1) = None
   \<and> generate_stubs (Suc 0) ex_importer ex_heap 1 ''o'' None Map.empty
       = (Some AttributeError, Map.empty)
   \<and> mod_path (ex_heap 2) = Some [''/s/p/s'']
   \<and> generate_stubs (Suc 0) ex_importer_bad ex_heap 2 ''o'' (Some ''p.s'') Map.empty
       = (Some ImportError, Map.empty)
   \<and> path_exists ex_fs_file ''o''
   \<and> rmtree ex_fs_file ''o'' = (Some NotADirectoryError, ex_fs_file)
   \<and> SG_generate 2 ex_importer ex_heap 0 ''o'' True ex_fs_file
       = (Some NotADirectoryError, ex_fs_file)
   \<and> SG_generate 1 ex_importer_bad ex_heap 2 ''o'' False Map.empty
       = (Some ImportError, Map.empty)
   \<and> MSG_generate ex_heap (MSG_init ex_heap 1) ''o'' ex_fs_dir
       = (Some IsADirectoryError, ex_fs_dir)
   \<and> fst (MSG_generate ex_heap ex_gen_nosig ''o'' Map.empty) = Some ValueError
   \<and> snd (MSG_generate ex_heap ex_gen_nosig ''o'' Map.empty) [''o'', ''p'', ''a.pyi'']
       = Some (File ''# Auto generatded stub from stubby.py p.a\<newline>\<newline>'')
   \<and> write_members [(''g'', ex_nosig), (''f'', ex_function)] ''''
       = (Some ValueError, '''')"
proof -
  have p: "output_file_of (ex_heap 1) ''o'' = ''o/p/a.pyi''" by code_simp
  have dn: "dirname ''o/p/a.pyi'' = ''o/p''" by code_simp
  have kd: "key ''o/p'' = [''o'', ''p'']" by code_simp
  have kp: "key ''o/p/a.pyi'' = [''o'', ''p'', ''a.pyi'']" by code_simp
  have ko: "key ''o'' = [''o'']" by code_simp
  have o1: "obj (MSG_init ex_heap 1) = 1" by (simp add: MSG_init_def)
  have o2: "obj ex_gen_nosig = 1" by (simp add: ex_gen_nosig_def)
  \<comment> \<open>1: a failing import\<close>
  have h1: "import_module ex_importer_bad ''p.s.b'' = Inl ImportError" by code_simp
  note c1 = C7_errors_propagate[where imp = ex_importer_bad and name = "''p.s.b''" and e = ImportError
      and d = 0 and h = ex_heap and out = "''o''" and ispkg = False
      and rest = "[(''p.s.c'', False)]" and f = Map.empty, THEN conjunct1, THEN mp, OF h1]
  \<comment> \<open>2: a failing renderer\<close>
  have h2a: "import_module ex_importer ''p.a'' = Inr 1" by code_simp
  have n2: "\<not> path_exists ex_fs_file (dirname (output_file_of (ex_heap (obj (MSG_init ex_heap 1))) ''o''))"
    unfolding o1 p dn by code_simp
  have mk: "makedirs ex_fs_file (dirname (output_file_of (ex_heap (obj (MSG_init ex_heap 1))) ''o''))
      = (Some NotADirectoryError, ex_fs_file)"
    unfolding o1 p dn by (simp add: makedirs_def kd lookup_def ex_fs_file_def)
  note c9 = C7_errors_propagate[where h = ex_heap and self = "MSG_init ex_heap 1" and out = "''o''"
      and f = ex_fs_file and e = NotADirectoryError and ?f1.0 = ex_fs_file,
      THEN conjunct2, THEN conjunct2, THEN conjunct2, THEN conjunct2, THEN conjunct2,
      THEN conjunct2, THEN conjunct2, THEN conjunct2, THEN conjunct1, THEN mp,
      OF conjI[OF n2 mk]]
  note c2 = C7_errors_propagate[where imp = ex_importer and name = "''p.a''" and loaded = 1 and h = ex_heap
      and out = "''o''" and f = ex_fs_file and e = NotADirectoryError and ?f1.0 = ex_fs_file
      and d = 1 and rest = "[(''p.s'', True)]",
      THEN conjunct2, THEN conjunct1, THEN mp, OF conjI[OF h2a c9]]
  \<comment> \<open>6 and 3: a failing child of a subpackage\<close>
  have h6a: "mod_path (ex_heap 2) = Some [''/s/p/s'']" by code_simp
  have h6b: "stubs_loop 0 ex_importer_bad ex_heap ''o''
       (iter_modules ex_importer_bad [''/s/p/s'']
          (str_opt (case Some ''p.s'' of None \<Rightarrow> mod_package (ex_heap 2) | Some p \<Rightarrow> Some p) @ ''.''))
       Map.empty = (Some ImportError, Map.empty)"
    by (simp add: iter_modules_def ex_importer_bad_def ex_importer_def str_opt_def)
  note c6 = C7_errors_propagate[where h = ex_heap and m = 2 and path = "[''/s/p/s'']" and d = 0
      and imp = ex_importer_bad and out = "''o''" and pkg = "Some ''p.s''" and f = Map.empty
      and e = ImportError and ?f1.0 = Map.empty,
      THEN conjunct2, THEN conjunct2, THEN conjunct2, THEN conjunct2, THEN conjunct2,
      THEN conjunct1, THEN mp, OF conjI[OF h6a h6b]]
  have pk: "str_opt (mod_package (ex_heap 2)) = ''p.s''" by code_simp
  have h3a: "import_module ex_importer_bad ''p.s'' = Inr 2" by code_simp
  have h3b: "generate_stubs 1 ex_importer_bad ex_heap 2 ''o'' (Some (str_opt (mod_package (ex_heap 2))))
        Map.empty = (Some ImportError, Map.empty)"
    unfolding pk using c6 by simp
  note c3 = C7_errors_propagate[where imp = ex_importer_bad and name = "''p.s''" and loaded = 2 and h = ex_heap
      and out = "''o''" and f = Map.empty and e = ImportError and ?f1.0 = Map.empty
      and d = 1 and rest = "[(''p.t'', False)]",
      THEN conjunct2, THEN conjunct2, THEN conjunct1, THEN mp, OF conjI[OF h3a h3b]]
  \<comment> \<open>4: an error after a completed child\<close>
  define F1 where "F1 = snd (stubs_loop 1 ex_importer_bad ex_heap ''o'' [(''p.a'', False)] Map.empty)"
  have "fst (stubs_loop 1 ex_importer_bad ex_heap ''o'' [(''p.a'', False)] Map.empty) = None"
    by code_simp
  then have h4a: "stubs_loop 1 ex_importer_bad ex_heap ''o'' [(''p.a'', False)] Map.empty = (None, F1)"
    unfolding F1_def by (metis prod.collapse)
  have g4: "generate_stubs 1 ex_importer_bad ex_heap 2 ''o'' (Some (str_opt (mod_package (ex_heap 2))))
        F1 = (Some ImportError, F1)"
    unfolding pk
    by (simp add: h6a iter_modules_def ex_importer_bad_def ex_importer_def str_opt_def)
  have h4b: "stubs_loop 1 ex_importer_bad ex_heap ''o'' [(''p.s'', True)] F1 = (Some ImportError, F1)"
    using h3a g4 by simp
  note c4 = C7_errors_propagate[where d = 1 and imp = ex_importer_bad and h = ex_heap and out = "''o''"
      and xs = "[(''p.a'', False)]" and f = Map.empty and ?f1.0 = F1
      and ys = "[(''p.s'', True)]" and e = ImportError and ?f2.0 = F1
      and zs = "[(''p.t'', False)]",
      THEN conjunct2, THEN conjunct2, THEN conjunct2, THEN conjunct1, THEN mp,
      OF conjI[OF h4a h4b]]
  \<comment> \<open>5: a module without a search path\<close>
  have h5: "mod_path (ex_heap 1) = None" by code_simp
  note c5 = C7_errors_propagate[where h = ex_heap and m = 1 and d = 0 and imp = ex_importer and out = "''o''"
      and pkg = None and f = Map.empty,
      THEN conjunct2, THEN conjunct2, THEN conjunct2, THEN conjunct2, THEN conjunct1,
      THEN mp, OF h5]
  \<comment> \<open>7: a failing flush\<close>
  have h7a: "path_exists ex_fs_file ''o''" by code_simp
  have h7b: "rmtree ex_fs_file ''o'' = (Some NotADirectoryError, ex_fs_file)"
    by (simp add: rmtree_def ko lookup_def ex_fs_file_def)
  note c7 = C7_errors_propagate[where flush = True and f = ex_fs_file and out = "''o''" and e = NotADirectoryError
      and ?f1.0 = ex_fs_file and d = 2 and imp = ex_importer and h = ex_heap and m = 0,
      THEN conjunct2, THEN conjunct2, THEN conjunct2, THEN conjunct2, THEN conjunct2,
      THEN conjunct2, THEN conjunct1, THEN mp, OF conjI[OF TrueI conjI[OF h7a h7b]]]
  \<comment> \<open>8: a failing walk after the flush step\<close>
  have h8a: "(if False \<and> path_exists Map.empty ''o'' then rmtree Map.empty ''o'' else (None, Map.empty))
      = (None, Map.empty)" by simp
  have h8b: "generate_stubs 1 ex_importer_bad ex_heap 2 ''o'' None Map.empty = (Some ImportError, Map.empty)"
    by (simp add: h6a iter_modules_def ex_importer_bad_def ex_importer_def str_opt_def ex_heap_def)
  note c8 = C7_errors_propagate[where flush = False and f = Map.empty and out = "''o''" and ?f1.0 = Map.empty
      and d = 1 and imp = ex_importer_bad and h = ex_heap and m = 2 and e = ImportError
      and ?f2.0 = Map.empty,
      THEN conjunct2, THEN conjunct2, THEN conjunct2, THEN conjunct2, THEN conjunct2,
      THEN conjunct2, THEN conjunct2, THEN conjunct1, THEN mp, OF conjI[OF h8a h8b]]
  \<comment> \<open>10: the output file is a directory\<close>
  have h10a: "(if \<not> path_exists ex_fs_dir (dirname (output_file_of (ex_heap (obj (MSG_init ex_heap 1))) ''o''))
        then makedirs ex_fs_dir (dirname (output_file_of (ex_heap (obj (MSG_init ex_heap 1))) ''o''))
        else (None, ex_fs_dir)) = (None, ex_fs_dir)"
    unfolding o1 p dn by (simp add: path_exists_def kd lookup_def ex_fs_dir_def)
  have h10b: "open_w ex_fs_dir (output_file_of (ex_heap (obj (MSG_init ex_heap 1))) ''o'')
      = (Some IsADirectoryError, ex_fs_dir)"
    unfolding o1 p by (simp add: open_w_def kp lookup_def ex_fs_dir_def)
  note c10 = C7_errors_propagate[where h = ex_heap and self = "MSG_init ex_heap 1" and out = "''o''"
      and f = ex_fs_dir and e = IsADirectoryError and ?f1.0 = ex_fs_dir and ?f2.0 = ex_fs_dir,
      THEN conjunct2, THEN conjunct2, THEN conjunct2, THEN conjunct2, THEN conjunct2,
      THEN conjunct2, THEN conjunct2, THEN conjunct2, THEN conjunct2, THEN conjunct1, THEN mp,
      OF conjI[OF h10a h10b]]
  \<comment> \<open>12 and 11: a function without a signature\<close>
  have h12: "\<not> startswith ''g'' ''__'' \<and> is_function ex_nosig \<and> \<not> is_class ex_nosig
      \<and> signature ex_nosig = Inl ValueError" by code_simp
  note c12 = C7_errors_propagate[where name = "''g''" and member = ex_nosig and e = ValueError
      and ms = "[(''f'', ex_function)]" and buf = "''''",
      THEN conjunct2, THEN conjunct2, THEN conjunct2, THEN conjunct2, THEN conjunct2,
      THEN conjunct2, THEN conjunct2, THEN conjunct2, THEN conjunct2, THEN conjunct2,
      THEN conjunct2, THEN mp, OF h12]
  define G1 where "G1 = snd (makedirs Map.empty ''o/p'')"
  define G2 where "G2 = snd (open_w G1 ''o/p/a.pyi'')"
  have "fst (makedirs Map.empty ''o/p'') = None" by code_simp
  then have m11: "makedirs Map.empty ''o/p'' = (None, G1)" unfolding G1_def by (metis prod.collapse)
  have n11: "\<not> path_exists Map.empty ''o/p''" by code_simp
  have h11a: "(if \<not> path_exists Map.empty (dirname (output_file_of (ex_heap (obj ex_gen_nosig)) ''o''))
        then makedirs Map.empty (dirname (output_file_of (ex_heap (obj ex_gen_nosig)) ''o''))
        else (None, Map.empty)) = (None, G1)"
    unfolding o2 p dn using n11 m11 by simp
  have "fst (open_w (snd (makedirs Map.empty ''o/p'')) ''o/p/a.pyi'') = None" by code_simp
  then have h11b: "open_w G1 (output_file_of (ex_heap (obj ex_gen_nosig)) ''o'') = (None, G2)"
    unfolding o2 p G2_def G1_def by (metis prod.collapse)
  have h11c: "write_members (members ex_gen_nosig) (header (mod_name (ex_heap (obj ex_gen_nosig))))
      = (Some ValueError, header (mod_name (ex_heap (obj ex_gen_nosig))))"
    unfolding o2 by (simp add: ex_gen_nosig_def ex_nosig_def member_text_def startswith_def)
  note c11 = C7_errors_propagate[where h = ex_heap and self = ex_gen_nosig and out = "''o''"
      and f = Map.empty and e = ValueError and ?f1.0 = G1 and ?f2.0 = G2
      and tx = "header (mod_name (ex_heap (obj ex_gen_nosig)))",
      THEN conjunct2, THEN conjunct2, THEN conjunct2, THEN conjunct2, THEN conjunct2,
      THEN conjunct2, THEN conjunct2, THEN conjunct2, THEN conjunct2, THEN conjunct2,
      THEN conjunct1, THEN mp, OF conjI[OF h11a conjI[OF h11b h11c]]]
  have hd: "header (mod_name (ex_heap 1)) = ''# Auto generatded stub from stubby.py p.a\<newline>\<newline>''"
    by code_simp
  from c11 have e11: "fst (MSG_generate ex_heap ex_gen_nosig ''o'' Map.empty) = Some ValueError"
    and s11: "snd (MSG_generate ex_heap ex_gen_nosig ''o'' Map.empty) [''o'', ''p'', ''a.pyi'']
       = Some (File ''# Auto generatded stub from stubby.py p.a\<newline>\<newline>'')"
    unfolding o2 p kp hd by simp_all
  show ?thesis
    unfolding F1_def[symmetric]
    by (intro conjI h1 c1 h2a c9 c2 h3a h3b c3 h4a c4 h5 c5 h6a c6 h7a h7b c7 c8 c10 e11 s11 c12)
qed

text \<open>
  Claim C8. In a completed walk of a package, every child listed for its search path has
  been imported. A child that is a package has been walked in turn, its children listed
  with the prefix made of its \<open>__package__\<close> attribute (its own dotted name, for a package
  as the import system sets it up), and its processing consists of processing those
  children only. A child that is not a package has been rendered by one call of generate,
  which has written its output file and has otherwise only created directories.
\<close>

theorem C8_walker_children:
  assumes "generate_stubs d imp h m out pkg f = (None, F)"
  shows "\<exists>d' path. d = Suc d' \<and> mod_path (h m) = Some path
    \<and> (\<forall>xs name ispkg ys.
          iter_modules imp path
            (str_opt (case pkg of None \<Rightarrow> mod_package (h m) | Some p \<Rightarrow> Some p) @ ''.'')
            = xs @ (name, ispkg) # ys
          \<longrightarrow> (\<exists>loaded f1 f2.
                 import_module imp name = Inr loaded
               \<and> stubs_loop d' imp h out xs f = (None, f1)
               \<and> stubs_loop d' imp h out ys f2 = (None, F)
               \<and> (if ispkg
                   then (\<exists>d'' path'. d' = Suc d'' \<and> mod_path (h loaded) = Some path'
                          \<and> stubs_loop d'' imp h out
                               (iter_modules imp path' (str_opt (mod_package (h loaded)) @ ''.''))
                               f1 = (None, f2)
                          \<and> (mod_package (h loaded) = Some (mod_name (h loaded))
                               \<longrightarrow> stubs_loop d'' imp h out
                                     (iter_modules imp path' (mod_name (h loaded) @ ''.''))
                                     f1 = (None, f2)))
                   else MSG_generate h (MSG_init h loaded) out f1 = (None, f2)
                      \<and> (\<exists>tx. f2 (key (output_file_of (h loaded) out)) = Some (File tx))
                      \<and> (\<forall>k. k \<noteq> key (output_file_of (h loaded) out)
                               \<longrightarrow> f2 k = f1 k \<or> (f1 k = None \<and> f2 k = Some Dir)))))"
proof -
  define children where "children = (\<lambda>path. iter_modules imp path
       (str_opt (case pkg of None \<Rightarrow> mod_package (h m) | Some p \<Rightarrow> Some p) @ ''.''))"
  from generate_stubs_NoneD[OF assms] obtain d' path where
    d: "d = Suc d'" and p: "mod_path (h m) = Some path"
    and l: "stubs_loop d' imp h out (children path) f = (None, F)"
    unfolding children_def by blast
  have "\<exists>loaded f1 f2.
                 import_module imp name = Inr loaded
               \<and> stubs_loop d' imp h out xs f = (None, f1)
               \<and> stubs_loop d' imp h out ys f2 = (None, F)
               \<and> (if ispkg
                   then (\<exists>d'' path'. d' = Suc d'' \<and> mod_path (h loaded) = Some path'
                          \<and> stubs_loop d'' imp h out
                               (iter_modules imp path' (str_opt (mod_package (h loaded)) @ ''.''))
                               f1 = (None, f2)
                          \<and> (mod_package (h loaded) = Some (mod_name (h loaded))
                               \<longrightarrow> stubs_loop d'' imp h out
                                     (iter_modules imp path' (mod_name (h loaded) @ ''.''))
                                     f1 = (None, f2)))
                   else MSG_generate h (MSG_init h loaded) out f1 = (None, f2)
                      \<and> (\<exists>tx. f2 (key (output_file_of (h loaded) out)) = Some (File tx))
                      \<and> (\<forall>k. k \<noteq> key (output_file_of (h loaded) out)
                               \<longrightarrow> f2 k = f1 k \<or> (f1 k = None \<and> f2 k = Some Dir)))"
    if c: "children path = xs @ (name, ispkg) # ys" for xs name ispkg ys
  proof -
    from l[unfolded c] stubs_loop_append_NoneD obtain f1 where
      l1: "stubs_loop d' imp h out xs f = (None, f1)"
      and l2: "stubs_loop d' imp h out ((name, ispkg) # ys) f1 = (None, F)" by blast
    from stubs_loop_Cons_NoneD[OF l2] obtain loaded f2 where
      i: "import_module imp name = Inr loaded"
      and s: "(if ispkg then generate_stubs d' imp h loaded out (Some (str_opt (mod_package (h loaded)))) f1
         else MSG_generate h (MSG_init h loaded) out f1) = (None, f2)"
      and r: "stubs_loop d' imp h out ys f2 = (None, F)" by blast
    show ?thesis
    proof (cases ispkg)
      case True
      with s have "generate_stubs d' imp h loaded out (Some (str_opt (mod_package (h loaded)))) f1 = (None, f2)"
        by simp
      from generate_stubs_NoneD[OF this] obtain d'' path' where
        "d' = Suc d''" "mod_path (h loaded) = Some path'"
        "stubs_loop d'' imp h out
            (iter_modules imp path' (str_opt (mod_package (h loaded)) @ ''.'')) f1 = (None, f2)"
        by (auto simp: str_opt_def)
      with True i l1 r show ?thesis by (auto simp: str_opt_def)
    next
      case False
      with s have g: "MSG_generate h (MSG_init h loaded) out f1 = (None, f2)" by simp
      have o: "obj (MSG_init h loaded) = loaded" by (simp add: MSG_init_def)
      from MSG_generate_effect(2)[OF g] have "\<exists>tx. f2 (key (output_file_of (h loaded) out)) = Some (File tx)"
        unfolding o by blast
      moreover have "\<forall>k. k \<noteq> key (output_file_of (h loaded) out)
                               \<longrightarrow> f2 k = f1 k \<or> (f1 k = None \<and> f2 k = Some Dir)"
        using MSG_generate_effect(4)[OF g] unfolding o by blast
      ultimately show ?thesis using False i l1 r g by auto
    qed
  qed
  with d p show ?thesis unfolding children_def by blast
qed

theorem C8_walker_children_witness:
  "generate_stubs 2 ex_importer ex_heap 0 ''o'' None Map.empty
      = (None, snd (generate_stubs 2 ex_importer ex_heap 0 ''o'' None Map.empty))
   \<and> (\<exists>d' path. (2::nat) = Suc d' \<and> mod_path (ex_heap 0) = Some path
    \<and> (\<forall>xs name ispkg ys.
          iter_modules ex_importer path
            (str_opt (case None of None \<Rightarrow> mod_package (ex_heap 0) | Some p \<Rightarrow> Some p) @ ''.'')
            = xs @ (name, ispkg) # ys
          \<longrightarrow> (\<exists>loaded f1 f2.
                 import_module ex_importer name = Inr loaded
               \<and> stubs_loop d' ex_importer ex_heap ''o'' xs Map.empty = (None, f1)
               \<and> stubs_loop d' ex_importer ex_heap ''o'' ys f2
                   = (None, snd (generate_stubs 2 ex_importer ex_heap 0 ''o'' None Map.empty))
               \<and> (if ispkg
                   then (\<exists>d'' path'. d' = Suc d'' \<and> mod_path (ex_heap loaded) = Some path'
                          \<and> stubs_loop d'' ex_importer ex_heap ''o''
                               (iter_modules ex_importer path'
                                  (str_opt (mod_package (ex_heap loaded)) @ ''.''))
                               f1 = (None, f2)
                          \<and> (mod_package (ex_heap loaded) = Some (mod_name (ex_heap loaded))
                               \<longrightarrow> stubs_loop d'' ex_importer ex_heap ''o''
                                     (iter_modules ex_importer path' (mod_name (ex_heap loaded) @ ''.''))
                                     f1 = (None, f2)))
                   else MSG_generate ex_heap (MSG_init ex_heap loaded) ''o'' f1 = (None, f2)
                      \<and> (\<exists>tx. f2 (key (output_file_of (ex_heap loaded) ''o'')) = Some (File tx))
                      \<and> (\<forall>k. k \<noteq> key (output_file_of (ex_heap loaded) ''o'')
                               \<longrightarrow> f2 k = f1 k \<or> (f1 k = None \<and> f2 k = Some Dir))))))
   \<and> iter_modules ex_importer [''/s/p''] ''p.'' = [] @ (''p.a'', False) # [(''p.s'', True)]
   \<and> iter_modules ex_importer [''/s/p''] ''p.'' = [(''p.a'', False)] @ (''p.s'', True) # []
   \<and> mod_package (ex_heap 2) = Some (mod_name (ex_heap 2))
   \<and> snd (generate_stubs 2 ex_importer ex_heap 0 ''o'' None Map.empty) [''o'', ''p'', ''a.pyi'']
       = Some (File ''# Auto generatded stub from stubby.py p.a\<newline>\<newline>class Foo:\<newline>    ...\<newline>\<newline>X: None # builtin: builtins True\<newline>\<newline>def add(a, b=1): ...\<newline>\<newline>'')
   \<and> snd (generate_stubs 2 ex_importer ex_heap 0 ''o'' None Map.empty) [''o'', ''p'', ''s'', ''b.pyi'']
       = Some (File ''# Auto generatded stub from stubby.py p.s.b\<newline>\<newline>Y: int # builtin: builtins True\<newline>\<newline>'')
   \<and> snd (generate_stubs 2 ex_importer ex_heap 0 ''o'' None Map.empty) [''o'', ''p'', ''s.pyi'']
       = None"
proof -
  have e: "fst (generate_stubs 2 ex_importer ex_heap 0 ''o'' None Map.empty) = None" by code_simp
  have h: "generate_stubs 2 ex_importer ex_heap 0 ''o'' None Map.empty
      = (None, snd (generate_stubs 2 ex_importer ex_heap 0 ''o'' None Map.empty))"
    using e by (metis prod.collapse)
  have i1: "iter_modules ex_importer [''/s/p''] ''p.'' = [] @ (''p.a'', False) # [(''p.s'', True)]"
    by code_simp
  have i2: "iter_modules ex_importer [''/s/p''] ''p.'' = [(''p.a'', False)] @ (''p.s'', True) # []"
    by code_simp
  have p: "mod_package (ex_heap 2) = Some (mod_name (ex_heap 2))" by code_simp
  have c1: "snd (generate_stubs 2 ex_importer ex_heap 0 ''o'' None Map.empty) [''o'', ''p'', ''a.pyi'']
       = Some (File ''# Auto generatded stub from stubby.py p.a\<newline>\<newline>class Foo:\<newline>    ...\<newline>\<newline>X: None # builtin: builtins True\<newline>\<newline>def add(a, b=1): ...\<newline>\<newline>'')"
    by code_simp
  have c2: "snd (generate_stubs 2 ex_importer ex_heap 0 ''o'' None Map.empty) [''o'', ''p'', ''s'', ''b.pyi'']
       = Some (File ''# Auto generatded stub from stubby.py p.s.b\<newline>\<newline>Y: int # builtin: builtins True\<newline>\<newline>'')"
    by code_simp
  have c3: "snd (generate_stubs 2 ex_importer ex_heap 0 ''o'' None Map.empty) [''o'', ''p'', ''s.pyi'']
       = None"
    by code_simp
  show ?thesis
    by (intro conjI h C8_walker_children[OF h] i1 i2 p c1 c2 c3)
qed

text \<open>
  Claim C9. With the flush flag set and no output directory, nothing is deleted and no
  error is raised by the flush step: StubGenerator.generate is the walk from the unchanged
  file system, and equal to the call without the flag.
\<close>

theorem C9_flush_without_directory:
  "\<not> path_exists f out \<Longrightarrow>
   SG_generate d imp h m out True f = generate_stubs d imp h m out None f
   \<and> SG_generate d imp h m out True f = SG_generate d imp h m out False f"
  by (simp add: SG_generate_def)

theorem C9_flush_without_directory_witness:
  "\<not> path_exists Map.empty ''o''
   \<and> SG_generate 2 ex_importer ex_heap 0 ''o'' True Map.empty
       = generate_stubs 2 ex_importer ex_heap 0 ''o'' None Map.empty
   \<and> SG_generate 2 ex_importer ex_heap 0 ''o'' True Map.empty
       = SG_generate 2 ex_importer ex_heap 0 ''o'' False Map.empty
   \<and> fst (SG_generate 2 ex_importer ex_heap 0 ''o'' True Map.empty) = None"
proof -
  have h: "\<not> path_exists Map.empty ''o''" by code_simp
  have e: "fst (SG_generate 2 ex_importer ex_heap 0 ''o'' True Map.empty) = None" by code_simp
  from C9_flush_without_directory[OF h, of 2 ex_importer ex_heap 0] h e show ?thesis by blast
qed




end
